theory Spec2Isabelle
  imports Main "HOL-Library.Product_Lexorder" "HOL-Library.Multiset" "HOL-Library.Sublist"
begin

section \<open>JavaScript strings\<close>

text \<open>
  A JavaScript string is a sequence of UTF-16 code units. A code unit is modelled as an
  integer and a string as the list of its code units, so that the white space of
  \<^verbatim>\<open>\s\<close> and \<^verbatim>\<open>trim\<close> (which reaches beyond Latin-1) and the long dash in one of the
  validator's messages are the ones of the source. \<open>asc\<close> turns an ASCII literal into
  such a string.
\<close>

type_synonym jchar = int
type_synonym jstring = "jchar list"

definition asc :: "string \<Rightarrow> jstring" where
  "asc s = map of_char s"

definition NL :: jchar where
  "NL = 10"

text \<open>White space and line terminators of ECMAScript: the set of \<^verbatim>\<open>\s\<close> and of \<^verbatim>\<open>trim\<close>.\<close>

definition is_space :: "jchar \<Rightarrow> bool" where
  "is_space c = (c = 9 \<or> c = 10 \<or> c = 11 \<or> c = 12 \<or> c = 13 \<or> c = 32 \<or> c = 160
     \<or> c = 5760 \<or> (8192 \<le> c \<and> c \<le> 8202) \<or> c = 8232 \<or> c = 8233 \<or> c = 8239
     \<or> c = 8287 \<or> c = 12288 \<or> c = 65279)"

definition is_digit :: "jchar \<Rightarrow> bool" where
  "is_digit c = (48 \<le> c \<and> c \<le> 57)"

definition is_word :: "jchar \<Rightarrow> bool" where
  "is_word c = ((97 \<le> c \<and> c \<le> 122) \<or> (65 \<le> c \<and> c \<le> 90) \<or> is_digit c \<or> c = 95)"

text \<open>The dot of a regular expression without the \<^verbatim>\<open>s\<close> flag matches all but these.\<close>

definition is_lineterm :: "jchar \<Rightarrow> bool" where
  "is_lineterm c = (c = 10 \<or> c = 13 \<or> c = 8232 \<or> c = 8233)"

definition trimStart :: "jstring \<Rightarrow> jstring" where
  "trimStart s = dropWhile is_space s"

definition trimEnd :: "jstring \<Rightarrow> jstring" where
  "trimEnd s = rev (dropWhile is_space (rev s))"

definition trim :: "jstring \<Rightarrow> jstring" where
  "trim s = trimEnd (trimStart s)"

definition startsWith :: "jstring \<Rightarrow> jstring \<Rightarrow> bool" where
  "startsWith s p = (take (length p) s = p)"

definition endsWith :: "jstring \<Rightarrow> jstring \<Rightarrow> bool" where
  "endsWith s p = (length p \<le> length s \<and> drop (length s - length p) s = p)"

fun includes_str :: "jstring \<Rightarrow> jstring \<Rightarrow> bool" where
  "includes_str [] p = (p = [])"
| "includes_str (c # cs) p = (startsWith (c # cs) p \<or> includes_str cs p)"

text \<open>\<^verbatim>\<open>s.lastIndexOf(c)\<close> for a single code unit: the last index, or \<open>-1\<close>.\<close>

definition lastIndexOf :: "jstring \<Rightarrow> jchar \<Rightarrow> int" where
  "lastIndexOf s c =
     fold (\<lambda>(i, x) acc. if x = c then i else acc) (zip (map int [0..<length s]) s) (- 1)"

text \<open>\<^verbatim>\<open>s.split("\n")\<close>: never empty, the empty string gives one empty line.\<close>

fun split_nl :: "jstring \<Rightarrow> jstring list" where
  "split_nl [] = [[]]"
| "split_nl (c # cs) =
     (if c = NL then [] # split_nl cs
      else (case split_nl cs of l # ls \<Rightarrow> (c # l) # ls | [] \<Rightarrow> [[c]]))"

text \<open>\<^verbatim>\<open>xs.join("\n")\<close>.\<close>

fun join_nl :: "jstring list \<Rightarrow> jstring" where
  "join_nl [] = []"
| "join_nl [x] = x"
| "join_nl (x # y # ys) = x @ NL # join_nl (y # ys)"

text \<open>
  What the source can throw: a method call on \<^verbatim>\<open>undefined\<close> (a read past the end of an
  array, a capture group that took no part in the match) is a TypeError, and
  \<^verbatim>\<open>repeat\<close> with a negative count is a RangeError.
\<close>

datatype error = TypeError | RangeError

definition at :: "'a list \<Rightarrow> nat \<Rightarrow> error + 'a" where
  "at xs i = (if i < length xs then Inr (xs ! i) else Inl TypeError)"

definition repeat :: "jstring \<Rightarrow> int \<Rightarrow> error + jstring" where
  "repeat s n = (if n < 0 then Inl RangeError else Inr (concat (replicate (nat n) s)))"

section \<open>Regular expressions\<close>

text \<open>
  The regular expressions of the source are kept as syntax trees, one constructor for each
  construct the source uses, and matched by the backtracking semantics of ECMAScript:
  \<open>rmatch r st\<close> lists the states in which a match of \<open>r\<close> started in \<open>st\<close> can end, in
  the order in which the backtracking matcher tries them (the left alternative first, the
  longest repetition first). A repetition drops an iteration that consumes nothing, as
  the standard's RepeatMatcher does. A state holds whether the match is at index 0
  (for \<^verbatim>\<open>^\<close>), the text still to be read and the capture groups set so far.
\<close>

datatype atom = Ch jchar | Rng jchar jchar | Sp | Wd | Dg

fun in_atom :: "atom \<Rightarrow> jchar \<Rightarrow> bool" where
  "in_atom (Ch d) c = (c = d)"
| "in_atom (Rng lo hi) c = (lo \<le> c \<and> c \<le> hi)"
| "in_atom Sp c = is_space c"
| "in_atom Wd c = is_word c"
| "in_atom Dg c = is_digit c"

datatype re = Eps | Dot | Cls "atom list" | NCls "atom list"
  | Seq re re | Alt re re | Star re | Grp nat re | Bol | Eol

datatype mstate = MState (at_start: bool) (rest: jstring) (caps: "(nat \<times> jstring) list")

fun step_char :: "(jchar \<Rightarrow> bool) \<Rightarrow> mstate \<Rightarrow> mstate list" where
  "step_char p (MState b [] g) = []"
| "step_char p (MState b (c # cs) g) = (if p c then [MState False cs g] else [])"

function rmatch :: "re \<Rightarrow> mstate \<Rightarrow> mstate list" where
  "rmatch Eps st = [st]"
| "rmatch Dot st = step_char (\<lambda>c. \<not> is_lineterm c) st"
| "rmatch (Cls as) st = step_char (\<lambda>c. \<exists>a \<in> set as. in_atom a c) st"
| "rmatch (NCls as) st = step_char (\<lambda>c. \<not> (\<exists>a \<in> set as. in_atom a c)) st"
| "rmatch (Seq r1 r2) st = concat (map (rmatch r2) (rmatch r1 st))"
| "rmatch (Alt r1 r2) st = rmatch r1 st @ rmatch r2 st"
| "rmatch (Star r) st =
     concat (map (\<lambda>st'. if length (rest st') < length (rest st) then rmatch (Star r) st' else [])
                 (rmatch r st)) @ [st]"
| "rmatch (Grp n r) st =
     map (\<lambda>st'. MState (at_start st') (rest st')
            ((n, take (length (rest st) - length (rest st')) (rest st)) # caps st'))
         (rmatch r st)"
| "rmatch Bol st = (if at_start st then [st] else [])"
| "rmatch Eol st = (if rest st = [] then [st] else [])"
  by pat_completeness auto
termination
  by (relation "measures [\<lambda>(r, st). size r, \<lambda>(r, st). length (rest st)]") auto

declare rmatch.simps(7) [simp del]

text \<open>The same repetition, unfolded over the list of states, for evaluation.\<close>

definition star_iter :: "re \<Rightarrow> nat \<Rightarrow> mstate list \<Rightarrow> mstate list" where
  "star_iter r n sts =
     concat (map (\<lambda>st'. if length (rest st') < n then rmatch (Star r) st' else []) sts)"

definition Sym :: "char \<Rightarrow> re" where
  "Sym c = Cls [Ch (of_char c)]"

definition Str :: "string \<Rightarrow> re" where
  "Str s = foldr (\<lambda>c r. Seq (Sym c) r) s Eps"

definition Plus :: "re \<Rightarrow> re" where
  "Plus r = Seq r (Star r)"

definition Opt :: "re \<Rightarrow> re" where
  "Opt r = Alt r Eps"

definition Seqs :: "re list \<Rightarrow> re" where
  "Seqs rs = foldr Seq rs Eps"

fun Alts :: "re list \<Rightarrow> re" where
  "Alts [] = Cls []"
| "Alts [r] = r"
| "Alts (r # rs) = Alt r (Alts rs)"

text \<open>
  \<^verbatim>\<open>re.exec(s)\<close> for a regular expression without flags: the first index at which a match
  starts, with the first end the backtracking finds there. The result is the index and
  the end state.
\<close>

fun search_from :: "re \<Rightarrow> bool \<Rightarrow> jstring \<Rightarrow> nat \<Rightarrow> (nat \<times> mstate) option" where
  "search_from r b [] i =
     (case rmatch r (MState b [] []) of x # _ \<Rightarrow> Some (i, x) | [] \<Rightarrow> None)"
| "search_from r b (c # cs) i =
     (case rmatch r (MState b (c # cs) []) of
        x # _ \<Rightarrow> Some (i, x)
      | [] \<Rightarrow> search_from r False cs (Suc i))"

definition exec :: "re \<Rightarrow> jstring \<Rightarrow> (nat \<times> mstate) option" where
  "exec r s = search_from r True s 0"

definition test :: "re \<Rightarrow> jstring \<Rightarrow> bool" where
  "test r s = (exec r s \<noteq> None)"

text \<open>\<^verbatim>\<open>m[n]\<close> of a match: \<open>None\<close> is \<^verbatim>\<open>undefined\<close>.\<close>

definition group :: "nat \<times> mstate \<Rightarrow> nat \<Rightarrow> jstring option" where
  "group m n = map_of (caps (snd m)) n"

text \<open>A replacement text: literal pieces and references \<^verbatim>\<open>$n\<close> to capture groups.\<close>

datatype piece = Txt string | Ref nat

fun expand :: "piece list \<Rightarrow> nat \<times> mstate \<Rightarrow> jstring" where
  "expand [] m = []"
| "expand (Txt t # ps) m = asc t @ expand ps m"
| "expand (Ref n # ps) m = (case group m n of Some g \<Rightarrow> g | None \<Rightarrow> []) @ expand ps m"

text \<open>\<^verbatim>\<open>s.replace(re, rep)\<close> without the \<^verbatim>\<open>g\<close> flag: the first match only.\<close>

definition replace :: "jstring \<Rightarrow> re \<Rightarrow> piece list \<Rightarrow> jstring" where
  "replace s r rep =
     (case exec r s of
        None \<Rightarrow> s
      | Some m \<Rightarrow> take (fst m) s @ expand rep m @ rest (snd m))"

text \<open>
  \<^verbatim>\<open>s.replace(re, rep)\<close> with the \<^verbatim>\<open>g\<close> flag: every match, each search starting where the
  match before it ended (one code unit further after an empty match). The recursion
  reads what is left of the string; \<open>b\<close> tells whether that is still the whole string.
\<close>

function replace_all_from :: "bool \<Rightarrow> jstring \<Rightarrow> re \<Rightarrow> piece list \<Rightarrow> jstring" where
  "replace_all_from b s r rep =
     (case search_from r b s 0 of
        None \<Rightarrow> s
      | Some m \<Rightarrow>
          take (fst m) s @ expand rep m @
          (if length (rest (snd m)) < length s then replace_all_from False (rest (snd m)) r rep
           else (case s of [] \<Rightarrow> [] | c # cs \<Rightarrow> c # replace_all_from False cs r rep)))"
  by pat_completeness auto
termination
  by (relation "measure (\<lambda>(b, s, r, rep). length s)") auto

declare replace_all_from.simps [simp del]

definition replace_all :: "jstring \<Rightarrow> re \<Rightarrow> piece list \<Rightarrow> jstring" where
  "replace_all s r rep = replace_all_from True s r rep"

abbreviation sp :: re where
  "sp \<equiv> Cls [Sp]"

abbreviation wd :: re where
  "wd \<equiv> Cls [Wd]"

abbreviation dg :: re where
  "dg \<equiv> Cls [Dg]"

section \<open>The formatter (formatter.ts)\<close>

subsection \<open>Its regular expressions\<close>

text \<open>\<^verbatim>\<open>/^(message|enum|service|oneof|extend)\s+/\<close>\<close>

definition BLOCK_OPENERS :: re where
  "BLOCK_OPENERS =
     Seqs [Bol, Grp 1 (Alts [Str ''message'', Str ''enum'', Str ''service'', Str ''oneof'',
                             Str ''extend'']), Plus sp]"

text \<open>\<^verbatim>\<open>/^rpc\s+.*\{$/\<close>\<close>

definition RPC_WITH_BODY :: re where
  "RPC_WITH_BODY = Seqs [Bol, Str ''rpc'', Plus sp, Star Dot, Sym CHR ''{'', Eol]"

text \<open>\<^verbatim>\<open>/^(.+;\s*)(}\s*)$/\<close>\<close>

definition re_split :: re where
  "re_split =
     Seqs [Bol, Grp 1 (Seqs [Plus Dot, Sym CHR '';'', Star sp]),
           Grp 2 (Seq (Sym CHR ''}'') (Star sp)), Eol]"

text \<open>\<^verbatim>\<open>/^syntax\s+/\<close>, \<^verbatim>\<open>/^package\s+/\<close>, \<^verbatim>\<open>/^import\s+/\<close>, \<^verbatim>\<open>/^option\s+/\<close>, \<^verbatim>\<open>/^reserved\s+/\<close>\<close>

definition re_keyword :: "string \<Rightarrow> re" where
  "re_keyword k = Seqs [Bol, Str k, Plus sp]"

text \<open>\<^verbatim>\<open>/\s+/\<close>\<close>

definition re_spaces :: re where
  "re_spaces = Plus sp"

text \<open>\<^verbatim>\<open>/\s+\{$/\<close>\<close>

definition re_space_brace :: re where
  "re_space_brace = Seqs [Plus sp, Sym CHR ''{'', Eol]"

text \<open>\<^verbatim>\<open>/\(\s+/g\<close>\<close>

definition re_paren_space :: re where
  "re_paren_space = Seq (Sym CHR ''('') (Plus sp)"

text \<open>\<^verbatim>\<open>/\s+\)/g\<close>\<close>

definition re_space_paren :: re where
  "re_space_paren = Seq (Plus sp) (Sym CHR '')'')"

text \<open>\<^verbatim>\<open>/\)\s+returns\s+\(/\<close>\<close>

definition re_returns :: re where
  "re_returns = Seqs [Sym CHR '')'', Plus sp, Str ''returns'', Plus sp, Sym CHR ''('']"

text \<open>\<^verbatim>\<open>/\s+;/\<close>\<close>

definition re_space_semi :: re where
  "re_space_semi = Seq (Plus sp) (Sym CHR '';'')"

text \<open>\<^verbatim>\<open>/\s*=\s*/\<close>\<close>

definition re_equals :: re where
  "re_equals = Seqs [Star sp, Sym CHR ''='', Star sp]"

text \<open>
  The start of a field declaration, shared by the field patterns of both files:
  \<^verbatim>\<open>^(?:optional\s+|repeated\s+|required\s+)?(?:map<[^>]+>|\w+(?:\.\w+)*)\s+\<close>
\<close>

definition re_field_head :: re where
  "re_field_head =
     Seqs [Bol,
           Opt (Alts [Seq (Str ''optional'') (Plus sp), Seq (Str ''repeated'') (Plus sp),
                      Seq (Str ''required'') (Plus sp)]),
           Alt (Seqs [Str ''map<'', Plus (NCls [Ch (of_char CHR ''>'')]), Sym CHR ''>''])
               (Seq (Plus wd) (Star (Seq (Sym CHR ''.'') (Plus wd)))),
           Plus sp]"

text \<open>\<^verbatim>\<open>/^(?:optional\s+|repeated\s+|required\s+)?(?:map<[^>]+>|\w+(?:\.\w+)*)\s+\w+\s*=/\<close>\<close>

definition re_fmt_field :: re where
  "re_fmt_field = Seqs [re_field_head, Plus wd, Star sp, Sym CHR ''='']"

text \<open>\<^verbatim>\<open>/^\w+\s*=\s*-?\d+\s*;/\<close>\<close>

definition re_enumval :: re where
  "re_enumval =
     Seqs [Bol, Plus wd, Star sp, Sym CHR ''='', Star sp, Opt (Sym CHR ''-''), Plus dg, Star sp,
           Sym CHR '';'']"

subsection \<open>The first loop: splitting a closing brace off a statement\<close>

definition split_line :: "jstring \<Rightarrow> error + jstring list" where
  "split_line raw =
     (let trimmed = trim raw in
      case exec re_split trimmed of
        None \<Rightarrow> Inr [raw]
      | Some splitMatch \<Rightarrow>
          if \<not> startsWith trimmed (asc ''//'') then
            (case (group splitMatch 1, group splitMatch 2) of
               (Some g1, Some g2) \<Rightarrow> Inr [trim g1, trim g2]
             | _ \<Rightarrow> Inl TypeError)
          else Inr [raw])"

fun split_lines :: "jstring list \<Rightarrow> error + jstring list" where
  "split_lines [] = Inr []"
| "split_lines (raw # rawLines) =
     (case split_line raw of
        Inl e \<Rightarrow> Inl e
      | Inr ls \<Rightarrow> (case split_lines rawLines of Inl e \<Rightarrow> Inl e | Inr lines \<Rightarrow> Inr (ls @ lines)))"

subsection \<open>The second loop: one token for each line\<close>

text \<open>The \<^verbatim>\<open>type\<close> tags of the source are string literals; these are all of them.\<close>

datatype ftype = TSyntax | TPackage | TImport | TOption | TComment | TBlock | TRpc | TField
  | TEnumval | TReserved | TClose | TOther

record token =
  t_text :: jstring
  t_depth :: int
  t_type :: ftype

text \<open>The chain of tests that classifies a line and normalises its spaces.\<close>

definition classify :: "jstring \<Rightarrow> jstring \<times> ftype" where
  "classify trimmed =
     (if test (re_keyword ''syntax'') trimmed then (replace trimmed re_spaces [Txt '' ''], TSyntax)
      else if test (re_keyword ''package'') trimmed then (replace trimmed re_spaces [Txt '' ''], TPackage)
      else if test (re_keyword ''import'') trimmed then (replace trimmed re_spaces [Txt '' ''], TImport)
      else if test (re_keyword ''option'') trimmed then (replace trimmed re_spaces [Txt '' ''], TOption)
      else if startsWith trimmed (asc ''//'') \<or> startsWith trimmed (asc ''*'') then (trimmed, TComment)
      else if test BLOCK_OPENERS trimmed then
        (replace (replace trimmed BLOCK_OPENERS [Ref 1, Txt '' '']) re_space_brace [Txt '' {''],
         TBlock)
      else if startsWith trimmed (asc ''rpc '') then
        (replace
           (replace
              (replace_all (replace_all trimmed re_paren_space [Txt ''(''])
                 re_space_paren [Txt '')''])
              re_returns [Txt '') returns (''])
           re_space_semi [Txt '';''],
         TRpc)
      else if test re_fmt_field trimmed then
        (replace (replace trimmed re_equals [Txt '' = '']) re_space_semi [Txt '';''], TField)
      else if test re_enumval trimmed then
        (replace (replace trimmed re_equals [Txt '' = '']) re_space_semi [Txt '';''], TEnumval)
      else if test (re_keyword ''reserved'') trimmed then (trimmed, TReserved)
      else (trimmed, TOther))"

text \<open>
  \<^verbatim>\<open>while (nextIdx < lines.length && !lines[nextIdx].trim()) nextIdx++\<close>: the index of the
  next line that is not blank, or \<open>length lines\<close>.
\<close>

function skip_blank :: "jstring list \<Rightarrow> nat \<Rightarrow> error + nat" where
  "skip_blank lines nextIdx =
     (if nextIdx < length lines then
        (case at lines nextIdx of
           Inl e \<Rightarrow> Inl e
         | Inr l \<Rightarrow> if trim l = [] then skip_blank lines (Suc nextIdx) else Inr nextIdx)
      else Inr nextIdx)"
  by pat_completeness auto
termination
  by (relation "measure (\<lambda>(lines, nextIdx). length lines - nextIdx)") auto

declare skip_blank.simps [simp del]

text \<open>
  A block opener without a brace takes the brace of the next line that is not blank, and
  the loop index moves to that line. The result is the text and the index.
\<close>

definition merge_brace :: "jstring list \<Rightarrow> nat \<Rightarrow> jstring \<Rightarrow> error + (jstring \<times> nat)" where
  "merge_brace lines i txt =
     (if test BLOCK_OPENERS txt \<and> \<not> includes_str txt (asc ''{'') then
        (case skip_blank lines (i + 1) of
           Inl e \<Rightarrow> Inl e
         | Inr nextIdx \<Rightarrow>
             if nextIdx < length lines then
               (case at lines nextIdx of
                  Inl e \<Rightarrow> Inl e
                | Inr l \<Rightarrow> if trim l = asc ''{'' then Inr (txt @ asc '' {'', nextIdx)
                          else Inr (txt, i))
             else Inr (txt, i))
      else Inr (txt, i))"

definition opensBlock :: "jstring \<Rightarrow> jstring \<Rightarrow> bool" where
  "opensBlock trimmed txt =
     ((test BLOCK_OPENERS trimmed \<and> endsWith txt (asc ''{'')) \<or> test RPC_WITH_BODY txt
      \<or> (endsWith txt (asc ''{'') \<and> \<not> startsWith txt (asc ''//'')))"

text \<open>The state of the loop: the tokens so far, the depth and the block-comment flag.\<close>

record fstate =
  formatted :: "token list"
  cur_depth :: int
  inBlockComment :: bool

text \<open>One turn of the loop at index \<open>i\<close>: the index the turn ends at and the new state.\<close>

definition format_line :: "jstring list \<Rightarrow> nat \<Rightarrow> fstate \<Rightarrow> error + (nat \<times> fstate)" where
  "format_line lines i st =
     (case at lines i of
        Inl e \<Rightarrow> Inl e
      | Inr l \<Rightarrow>
          let line = trimEnd l; trimmed = trim line in
          if inBlockComment st then
            Inr (i, st\<lparr>formatted := formatted st @ [\<lparr>t_text = trimmed, t_depth = cur_depth st, t_type = TComment\<rparr>],
                       inBlockComment := \<not> includes_str trimmed (asc ''*/'')\<rparr>)
          else if startsWith trimmed (asc ''/*'') then
            Inr (i, st\<lparr>formatted := formatted st @ [\<lparr>t_text = trimmed, t_depth = cur_depth st, t_type = TComment\<rparr>],
                       inBlockComment := \<not> includes_str trimmed (asc ''*/'')\<rparr>)
          else if trimmed = [] then Inr (i, st)
          else if trimmed = asc ''}'' \<or> trimmed = asc ''};'' then
            (let d = max 0 (cur_depth st - 1) in
             Inr (i, st\<lparr>formatted := formatted st @ [\<lparr>t_text = trimmed, t_depth = d, t_type = TClose\<rparr>],
                        cur_depth := d\<rparr>))
          else
            (case classify trimmed of
               (txt0, ty) \<Rightarrow>
                 (case merge_brace lines i txt0 of
                    Inl e \<Rightarrow> Inl e
                  | Inr (txt, i') \<Rightarrow>
                      Inr (i', st\<lparr>formatted := formatted st @ [\<lparr>t_text = txt, t_depth = cur_depth st, t_type = ty\<rparr>],
                                  cur_depth := (if opensBlock trimmed txt then cur_depth st + 1
                                                else cur_depth st)\<rparr>))))"

function first_pass :: "jstring list \<Rightarrow> nat \<Rightarrow> fstate \<Rightarrow> error + fstate" where
  "first_pass lines i st =
     (if i < length lines then
        (case format_line lines i st of
           Inl e \<Rightarrow> Inl e
         | Inr (i', st') \<Rightarrow> first_pass lines (Suc i') st')
      else Inr st)"
  by pat_completeness auto

subsection \<open>The third loop: blank lines and indentation\<close>

definition shouldInsertBlankLine :: "token \<Rightarrow> token \<Rightarrow> bool" where
  "shouldInsertBlankLine prev cur =
     (if t_type prev = TClose \<and> t_type cur \<noteq> TClose then True
      else if t_depth prev = 0 \<and> t_depth cur = 0 \<and>
        ((t_type prev = TSyntax \<and> t_type cur \<noteq> TSyntax)
         \<or> (t_type prev = TPackage \<and> t_type cur \<noteq> TPackage)
         \<or> (t_type prev = TImport \<and> t_type cur \<noteq> TImport)
         \<or> (t_type prev = TOption \<and> t_type cur \<noteq> TOption)
         \<or> (t_type cur = TBlock \<and> t_type prev \<noteq> TComment)
         \<or> (t_type cur = TComment \<and> t_type prev \<noteq> TComment \<and> t_type prev \<noteq> TSyntax
             \<and> t_type prev \<noteq> TPackage \<and> t_type prev \<noteq> TImport \<and> t_type prev \<noteq> TOption))
      then True
      else if t_depth cur > 0 then False
      else False)"

definition indent :: "int \<Rightarrow> error + jstring" where
  "indent d = repeat (asc ''  '') d"

fun second_pass :: "token option \<Rightarrow> token list \<Rightarrow> error + jstring list" where
  "second_pass prev [] = Inr []"
| "second_pass prev (cur # toks) =
     (case indent (t_depth cur) of
        Inl e \<Rightarrow> Inl e
      | Inr ind \<Rightarrow>
          (case second_pass (Some cur) toks of
             Inl e \<Rightarrow> Inl e
           | Inr result \<Rightarrow>
               Inr ((case prev of
                       None \<Rightarrow> []
                     | Some p \<Rightarrow> if shouldInsertBlankLine p cur then [[]] else [])
                    @ (ind @ t_text cur) # result)))"

text \<open>\<^verbatim>\<open>while (result.length > 0 && result[result.length - 1] === "") result.pop()\<close>\<close>

function pop_blank :: "jstring list \<Rightarrow> jstring list" where
  "pop_blank result =
     (if result \<noteq> [] \<and> last result = [] then pop_blank (butlast result) else result)"
  by pat_completeness auto
termination
  by (relation "measure length") auto

declare pop_blank.simps [simp del]

text \<open>
  \<open>format\<close> in two parts: the tokens of the first two loops, and the text that the third
  loop and the trimming of the end make of them.
\<close>

definition format_init :: fstate where
  "format_init = \<lparr>formatted = [], cur_depth = 0, inBlockComment = False\<rparr>"

definition tokens :: "jstring \<Rightarrow> error + token list" where
  "tokens content =
     (case split_lines (split_nl content) of
        Inl e \<Rightarrow> Inl e
      | Inr lines \<Rightarrow>
          (case first_pass lines 0 format_init of
             Inl e \<Rightarrow> Inl e
           | Inr st \<Rightarrow> Inr (formatted st)))"

definition render :: "token list \<Rightarrow> error + jstring" where
  "render toks =
     (case second_pass None toks of
        Inl e \<Rightarrow> Inl e
      | Inr result \<Rightarrow> Inr (join_nl (pop_blank result @ [[]])))"

definition format :: "jstring \<Rightarrow> error + jstring" where
  "format content = (case tokens content of Inl e \<Rightarrow> Inl e | Inr toks \<Rightarrow> render toks)"

section \<open>The validator (validator.ts)\<close>

datatype Severity = Error | Warning | Info

record Issue =
  line :: int
  column :: int
  rule :: jstring
  message :: jstring
  severity :: Severity

record ValidationResult =
  valid :: bool
  errors :: "Issue list"
  warnings :: "Issue list"
  info :: "Issue list"

definition issue :: "int \<Rightarrow> int \<Rightarrow> jstring \<Rightarrow> jstring \<Rightarrow> Severity \<Rightarrow> Issue" where
  "issue l c r m s = \<lparr>line = l, column = c, rule = r, message = m, severity = s\<rparr>"

text \<open>The double quote and the long dash of the messages, and a number in a template.\<close>

definition dq :: jstring where
  "dq = [34]"

definition dash :: jstring where
  "dash = [8212]"

fun num_str :: "nat \<Rightarrow> jstring" where
  "num_str n = (if n < 10 then [48 + int n] else num_str (n div 10) @ [48 + int (n mod 10)])"

declare num_str.simps [simp del]

text \<open>\<^verbatim>\<open>m[n]\<close> in a template or a comparison: \<^verbatim>\<open>undefined\<close> prints as its name.\<close>

definition group_str :: "nat \<times> mstate \<Rightarrow> nat \<Rightarrow> jstring" where
  "group_str m n = (case group m n of Some g \<Rightarrow> g | None \<Rightarrow> asc ''undefined'')"

text \<open>\<^verbatim>\<open>(code.match(/{/g) || []).length\<close>: the number of occurrences of one code unit.\<close>

definition count_char :: "char \<Rightarrow> jstring \<Rightarrow> nat" where
  "count_char c s = length (filter (\<lambda>x. x = of_char c) s)"

definition is_comment_line :: "jstring \<Rightarrow> bool" where
  "is_comment_line trimmed =
     (startsWith trimmed (asc ''//'') \<or> startsWith trimmed (asc ''/*'')
      \<or> startsWith trimmed (asc ''*''))"

subsection \<open>Its regular expressions\<close>

text \<open>\<^verbatim>\<open>/^[A-Z][A-Za-z0-9]*$/\<close>\<close>

definition PASCAL_RE :: re where
  "PASCAL_RE = Seqs [Bol, Cls [Rng 65 90], Star (Cls [Rng 65 90, Rng 97 122, Rng 48 57]), Eol]"

text \<open>\<^verbatim>\<open>/^[a-z][a-z0-9]*(_[a-z0-9]+)*$/\<close>\<close>

definition SNAKE_RE :: re where
  "SNAKE_RE =
     Seqs [Bol, Cls [Rng 97 122], Star (Cls [Rng 97 122, Rng 48 57]),
           Star (Grp 1 (Seq (Sym CHR ''_'') (Plus (Cls [Rng 97 122, Rng 48 57])))), Eol]"

text \<open>\<^verbatim>\<open>/^[A-Z][A-Z0-9]*(_[A-Z0-9]+)*$/\<close>\<close>

definition UPPER_SNAKE_RE :: re where
  "UPPER_SNAKE_RE =
     Seqs [Bol, Cls [Rng 65 90], Star (Cls [Rng 65 90, Rng 48 57]),
           Star (Grp 1 (Seq (Sym CHR ''_'') (Plus (Cls [Rng 65 90, Rng 48 57])))), Eol]"

text \<open>\<^verbatim>\<open>/\/\/.*$/\<close>\<close>

definition re_inline_comment :: re where
  "re_inline_comment = Seqs [Str ''//'', Star Dot, Eol]"

text \<open>\<^verbatim>\<open>/^(message|enum|oneof|reserved|option|extensions|map<)/\<close>\<close>

definition re_nested_def :: re where
  "re_nested_def =
     Seq Bol (Grp 1 (Alts [Str ''message'', Str ''enum'', Str ''oneof'', Str ''reserved'',
                           Str ''option'', Str ''extensions'', Str ''map<'']))"

text \<open>\<^verbatim>\<open>/^(?:optional\s+|repeated\s+|required\s+)?(?:map<[^>]+>|\w+(?:\.\w+)*)\s+\w+/\<close>\<close>

definition re_field_decl :: re where
  "re_field_decl = Seqs [re_field_head, Plus wd]"

text \<open>\<^verbatim>\<open>/=\s*\d+\s*;/\<close>, \<^verbatim>\<open>/=\s*\d+\s*\[/\<close>, \<^verbatim>\<open>/=\s*\d+\s*$/\<close>\<close>

definition re_number_then :: "re \<Rightarrow> re" where
  "re_number_then r = Seqs [Sym CHR ''='', Star sp, Plus dg, Star sp, r]"

text \<open>\<^verbatim>\<open>/^\w+/\<close>\<close>

definition re_word_start :: re where
  "re_word_start = Seq Bol (Plus wd)"

text \<open>\<^verbatim>\<open>/^\w+\s*=\s*-?\d+\s*\[/\<close>, \<^verbatim>\<open>/^\w+\s*=\s*-?\d+\s*$/\<close> (with \<open>;\<close> it is \<open>re_enumval\<close>)\<close>

definition re_enum_number_then :: "re \<Rightarrow> re" where
  "re_enum_number_then r =
     Seqs [Bol, Plus wd, Star sp, Sym CHR ''='', Star sp, Opt (Sym CHR ''-''), Plus dg, Star sp, r]"

text \<open>\<^verbatim>\<open>/^(message|enum|service|oneof)\s+(\w*)/\<close>\<close>

definition re_block :: re where
  "re_block =
     Seqs [Bol, Grp 1 (Alts [Str ''message'', Str ''enum'', Str ''service'', Str ''oneof'']),
           Plus sp, Grp 2 (Star wd)]"

text \<open>\<^verbatim>\<open>/^rpc\s+\w+\s*\([^)]*\)\s+returns\s+\([^)]*\)\s*[;{]/\<close>\<close>

definition re_rpc :: re where
  "re_rpc =
     Seqs [Bol, Str ''rpc'', Plus sp, Plus wd, Star sp,
           Sym CHR ''('', Star (NCls [Ch (of_char CHR '')'')]), Sym CHR '')'',
           Plus sp, Str ''returns'', Plus sp,
           Sym CHR ''('', Star (NCls [Ch (of_char CHR '')'')]), Sym CHR '')'',
           Star sp, Cls [Ch (of_char CHR '';''), Ch (of_char CHR ''{'')]]"

text \<open>\<^verbatim>\<open>/^syntax\s*=\s*"([^"]*)"\s*;/\<close>\<close>

definition re_syntax_value :: re where
  "re_syntax_value =
     Seqs [Bol, Str ''syntax'', Star sp, Sym CHR ''='', Star sp, Cls [Ch 34],
           Grp 1 (Star (NCls [Ch 34])), Cls [Ch 34], Star sp, Sym CHR '';'']"

text \<open>\<^verbatim>\<open>/^syntax\s/\<close> and its like: a keyword and one white space\<close>

definition re_keyword1 :: "string \<Rightarrow> re" where
  "re_keyword1 k = Seqs [Bol, Str k, sp]"

text \<open>\<^verbatim>\<open>/^\/[/*]/\<close>\<close>

definition re_comment_start :: re where
  "re_comment_start =
     Seqs [Bol, Sym CHR ''/'', Cls [Ch (of_char CHR ''/''), Ch (of_char CHR ''*'')]]"

text \<open>\<^verbatim>\<open>/^(syntax|package|import|option)\s+/\<close>\<close>

definition re_statement :: re where
  "re_statement =
     Seqs [Bol, Grp 1 (Alts [Str ''syntax'', Str ''package'', Str ''import'', Str ''option'']),
           Plus sp]"

text \<open>\<^verbatim>\<open>/^message\s+(\w+)/\<close>, \<^verbatim>\<open>/^enum\s+(\w+)/\<close>\<close>

definition re_named :: "string \<Rightarrow> re" where
  "re_named k = Seqs [Bol, Str k, Plus sp, Grp 1 (Plus wd)]"

text \<open>\<^verbatim>\<open>/^(\w+)\s*=\s*(\d+)/\<close>\<close>

definition re_value :: re where
  "re_value = Seqs [Bol, Grp 1 (Plus wd), Star sp, Sym CHR ''='', Star sp, Grp 2 (Plus dg)]"

text \<open>\<^verbatim>\<open>/^(?:optional\s+|repeated\s+|required\s+)?(?:map<[^>]+>|\w+(?:\.\w+)*)\s+(\w+)\s*=\s*\d+/\<close>\<close>

definition re_field_name :: re where
  "re_field_name =
     Seqs [re_field_head, Grp 1 (Plus wd), Star sp, Sym CHR ''='', Star sp, Plus dg]"

subsection \<open>validateSyntax\<close>

record ctx =
  c_type :: jstring
  c_name :: jstring
  c_line :: int

record sstate =
  s_issues :: "Issue list"
  braceStack :: "ctx list"
  expectingBody :: bool
  expectingType :: jstring
  expectingName :: jstring
  expectingLine :: int

definition syntax_error :: "int \<Rightarrow> int \<Rightarrow> jstring \<Rightarrow> Issue" where
  "syntax_error l c m = issue l c (asc ''syntax-error'') m Error"

text \<open>
  \<^verbatim>\<open>braceStack.length > 0 ? braceStack[braceStack.length - 1].type : ""\<close>
\<close>

definition currentContext_of :: "ctx list \<Rightarrow> error + jstring" where
  "currentContext_of stack =
     (if length stack > 0 then
        (case at stack (length stack - 1) of Inl e \<Rightarrow> Inl e | Inr c \<Rightarrow> Inr (c_type c))
      else Inr [])"

definition is_closing :: "jstring \<Rightarrow> bool" where
  "is_closing code = (code = asc ''}'' \<or> code = asc ''};'')"

text \<open>Field declarations inside a message or a oneof.\<close>

definition check_field :: "int \<Rightarrow> jstring \<Rightarrow> jstring \<Rightarrow> Issue list" where
  "check_field lineNum code currentContext =
     (if currentContext = asc ''message'' \<or> currentContext = asc ''oneof'' then
        (let isNestedDef = test re_nested_def code;
             isClosingBrace = is_closing code;
             isFieldDecl = test re_field_decl code
         in if isFieldDecl \<and> \<not> isNestedDef \<and> \<not> isClosingBrace then
              (if \<not> test (re_number_then (Sym CHR '';'')) code
                  \<and> \<not> test (re_number_then (Sym CHR ''['')) code then
                 (if test (re_number_then Eol) code then
                    [syntax_error lineNum 1
                       (asc ''Field declaration is missing a trailing semicolon.'')]
                  else
                    [syntax_error lineNum 1
                       (asc ''Field declaration is missing a valid field number.'')])
               else [])
            else [])
      else [])"

text \<open>Enum values inside an enum.\<close>

definition check_enum_value :: "int \<Rightarrow> jstring \<Rightarrow> jstring \<Rightarrow> Issue list" where
  "check_enum_value lineNum code currentContext =
     (if currentContext = asc ''enum'' then
        (let isClosingBrace = is_closing code;
             isOption = startsWith code (asc ''option '');
             isReserved = startsWith code (asc ''reserved '')
         in if \<not> isClosingBrace \<and> \<not> isOption \<and> \<not> isReserved \<and> test re_word_start code then
              (if \<not> test re_enumval code
                  \<and> \<not> test (re_enum_number_then (Sym CHR ''['')) code then
                 (if test (re_enum_number_then Eol) code then
                    [syntax_error lineNum 1 (asc ''Enum value is missing a trailing semicolon.'')]
                  else
                    [syntax_error lineNum 1
                       (asc ''Enum value is missing a valid number assignment.'')])
               else [])
            else [])
      else [])"

text \<open>
  The openings of message, enum, service and oneof, and the line after an opening that
  had no brace.
\<close>

definition check_block :: "int \<Rightarrow> jstring \<Rightarrow> (nat \<times> mstate) option \<Rightarrow> sstate \<Rightarrow> sstate" where
  "check_block lineNum code blockMatch st =
     (case blockMatch of
        Some m \<Rightarrow>
          (let ty = group_str m 1;
               name = (case group m 2 of Some g \<Rightarrow> g | None \<Rightarrow> []);
               st1 = (if name = [] then
                        st\<lparr>s_issues := s_issues st @
                          [syntax_error lineNum 1 (ty @ asc '' declaration is missing a name.'')]\<rparr>
                      else st)
           in if includes_str code (asc ''{'') then
                st1\<lparr>braceStack := braceStack st1 @ [\<lparr>c_type = ty, c_name = name, c_line = lineNum\<rparr>]\<rparr>
              else
                st1\<lparr>expectingBody := True, expectingType := ty, expectingName := name,
                    expectingLine := lineNum\<rparr>)
      | None \<Rightarrow>
          if expectingBody st then
            (if startsWith code (asc ''{'') \<or> code = asc ''{'' then
               st\<lparr>braceStack := braceStack st @
                    [\<lparr>c_type = expectingType st, c_name = expectingName st,
                      c_line = expectingLine st\<rparr>]\<rparr>
             else
               st\<lparr>s_issues := s_issues st @
                    [syntax_error (expectingLine st) 1
                       (expectingType st @ asc '' '' @ dq @ expectingName st @ dq
                        @ asc '' is missing opening brace '' @ dq @ asc ''{'' @ dq)]\<rparr>)
            \<lparr>expectingBody := False\<rparr>
          else st)"

text \<open>
  The loop over the opening braces of the line: each pushes an anonymous block, but for
  the first one of a line that opens a named block.
\<close>

definition push_braces :: "int \<Rightarrow> bool \<Rightarrow> nat \<Rightarrow> ctx list \<Rightarrow> ctx list" where
  "push_braces lineNum hasBlockMatch openCount stack =
     stack @ concat (map (\<lambda>j. if \<not> hasBlockMatch \<or> j > 0
                                then [\<lparr>c_type = asc ''block'', c_name = [], c_line = lineNum\<rparr>]
                                else [])
                         [0..<openCount])"

text \<open>The loop over the closing braces of the line.\<close>

fun pop_braces :: "nat \<Rightarrow> int \<Rightarrow> sstate \<Rightarrow> sstate" where
  "pop_braces 0 lineNum st = st"
| "pop_braces (Suc k) lineNum st =
     pop_braces k lineNum
       (if length (braceStack st) > 0 then st\<lparr>braceStack := butlast (braceStack st)\<rparr>
        else st\<lparr>s_issues := s_issues st @
               [syntax_error lineNum 1
                  (asc ''Unexpected closing brace '' @ dq @ asc ''}'' @ dq @ asc ''.'')]\<rparr>)"

definition check_rpc :: "int \<Rightarrow> jstring \<Rightarrow> jstring \<Rightarrow> Issue list" where
  "check_rpc lineNum code currentContext =
     (if currentContext = asc ''service'' \<and> startsWith code (asc ''rpc '') then
        (if \<not> test re_rpc code then
           [syntax_error lineNum 1
              (asc ''Malformed rpc declaration. Expected: rpc Name(Request) returns (Response);'')]
         else [])
      else [])"

definition check_syntax_value :: "int \<Rightarrow> jstring \<Rightarrow> Issue list" where
  "check_syntax_value lineNum code =
     (case exec re_syntax_value code of
        Some syntaxMatch \<Rightarrow>
          (let val = group_str syntaxMatch 1 in
           if val \<noteq> asc ''proto2'' \<and> val \<noteq> asc ''proto3'' then
             [syntax_error lineNum 1
                (asc ''Invalid syntax value '' @ dq @ val @ dq @ asc ''. Must be '' @ dq
                 @ asc ''proto2'' @ dq @ asc '' or '' @ dq @ asc ''proto3'' @ dq @ asc ''.'')]
           else [])
      | None \<Rightarrow> [])"

definition check_trailing :: "int \<Rightarrow> jstring \<Rightarrow> Issue list" where
  "check_trailing lineNum code =
     (if includes_str code (asc '';'') \<and> \<not> endsWith code (asc '';'')
         \<and> \<not> includes_str code (asc ''{'') then
        (let afterSemicolon = trim (drop (nat (lastIndexOf code 59 + 1)) code) in
         if afterSemicolon \<noteq> [] \<and> \<not> startsWith afterSemicolon (asc ''//'') then
           [syntax_error lineNum (lastIndexOf code 59 + 2)
              (asc ''Unexpected content '' @ dq @ afterSemicolon @ dq @ asc '' after semicolon.'')]
         else [])
      else [])"

definition check_toplevel :: "int \<Rightarrow> jstring \<Rightarrow> jstring \<Rightarrow> bool \<Rightarrow> Issue list" where
  "check_toplevel lineNum code currentContext expecting =
     (if currentContext = [] \<and> \<not> expecting then
        (let isKnown =
               (code = asc ''}'' \<or> code = asc ''};''
                \<or> test (re_keyword1 ''syntax'') code
                \<or> test (re_keyword1 ''package'') code
                \<or> test (re_keyword1 ''import'') code
                \<or> test (re_keyword1 ''option'') code
                \<or> test (re_keyword1 ''message'') code
                \<or> test (re_keyword1 ''enum'') code
                \<or> test (re_keyword1 ''service'') code
                \<or> test (re_keyword1 ''extend'') code
                \<or> test re_comment_start code
                \<or> code = asc ''{'')
         in if \<not> isKnown then
              [syntax_error lineNum 1
                 (asc ''Unrecognized statement: '' @ dq @ take 40 code
                  @ (if length code > 40 then asc ''...'' else []) @ dq @ asc ''.'')]
            else [])
      else [])"

definition check_semicolon :: "int \<Rightarrow> jstring \<Rightarrow> Issue list" where
  "check_semicolon lineNum code =
     (if test re_statement code \<and> \<not> endsWith code (asc '';'')
         \<and> \<not> includes_str code (asc ''{'') then
        [syntax_error lineNum (int (length code))
           (asc ''Statement is missing a trailing semicolon.'')]
      else [])"

text \<open>The checks of one line of code, in the order of the source.\<close>

definition syntax_code :: "int \<Rightarrow> jstring \<Rightarrow> jstring \<Rightarrow> sstate \<Rightarrow> sstate" where
  "syntax_code lineNum code currentContext st =
     (let openCount = count_char CHR ''{'' code;
          closeCount = count_char CHR ''}'' code;
          st1 = st\<lparr>s_issues := s_issues st @ check_field lineNum code currentContext
                                 @ check_enum_value lineNum code currentContext\<rparr>;
          blockMatch = exec re_block code;
          st2 = check_block lineNum code blockMatch st1;
          st3 = st2\<lparr>braceStack := push_braces lineNum (blockMatch \<noteq> None) openCount (braceStack st2)\<rparr>;
          st4 = pop_braces closeCount lineNum st3
      in st4\<lparr>s_issues := s_issues st4 @ check_rpc lineNum code currentContext
                            @ check_syntax_value lineNum code
                            @ check_trailing lineNum code
                            @ check_toplevel lineNum code currentContext (expectingBody st4)
                            @ check_semicolon lineNum code\<rparr>)"

definition syntax_line :: "int \<Rightarrow> jstring \<Rightarrow> sstate \<Rightarrow> error + sstate" where
  "syntax_line lineNum raw st =
     (let trimmed = trim raw in
      if trimmed = [] \<or> is_comment_line trimmed then Inr st
      else
        (let code = trim (replace trimmed re_inline_comment []) in
         if code = [] then Inr st
         else
           (case currentContext_of (braceStack st) of
              Inl e \<Rightarrow> Inl e
            | Inr currentContext \<Rightarrow> Inr (syntax_code lineNum code currentContext st))))"

fun syntax_loop :: "jstring list \<Rightarrow> int \<Rightarrow> sstate \<Rightarrow> error + sstate" where
  "syntax_loop [] lineNum st = Inr st"
| "syntax_loop (raw # lines) lineNum st =
     (case syntax_line lineNum raw st of
        Inl e \<Rightarrow> Inl e
      | Inr st' \<Rightarrow> syntax_loop lines (lineNum + 1) st')"

definition unclosed_issue :: "ctx \<Rightarrow> Issue" where
  "unclosed_issue unclosed =
     syntax_error (c_line unclosed) 1
       (asc ''Unclosed '' @ c_type unclosed @ asc '' '' @ dq @ c_name unclosed @ dq @ asc '' ''
        @ dash @ asc '' missing closing brace '' @ dq @ asc ''}'' @ dq @ asc ''.'')"

definition syntax_init :: sstate where
  "syntax_init =
     \<lparr>s_issues = [], braceStack = [], expectingBody = False, expectingType = [],
      expectingName = [], expectingLine = 0\<rparr>"

definition validateSyntax :: "jstring list \<Rightarrow> error + Issue list" where
  "validateSyntax lines =
     (case syntax_loop lines 1 syntax_init of
        Inl e \<Rightarrow> Inl e
      | Inr st \<Rightarrow> Inr (s_issues st @ map unclosed_issue (braceStack st)))"

subsection \<open>validate\<close>

record enum_value =
  v_name :: jstring
  v_number :: int
  v_line :: int

record enum_block =
  e_name :: jstring
  e_startLine :: int
  e_values :: "enum_value list"

record import_line =
  i_line :: int
  i_text :: jstring
  isPublic :: bool

record vstate =
  issues :: "Issue list"
  hasSyntax :: bool
  hasPackage :: bool
  syntaxLine :: int
  packageLine :: int
  firstImportLine :: int
  lastImportLine :: int
  importLines :: "import_line list"
  prevLineIsComment :: bool
  enumBlocks :: "enum_block list"
  currentEnum :: "enum_block option"
  braceDepth :: int
  inService :: bool
  serviceHasComment :: bool
  inEnum :: bool

text \<open>
  \<^verbatim>\<open>parseInt(digits, 10)\<close> on a string of decimal digits. The source's number is a double,
  which is exact up to \<open>2^53\<close> and is 0 only for a string of zeros; the only use of the
  number is the comparison with 0.
\<close>

definition parseInt :: "jstring \<Rightarrow> int" where
  "parseInt ds = foldl (\<lambda>a c. 10 * a + (c - 48)) 0 ds"

definition check_line_length :: "int \<Rightarrow> jstring \<Rightarrow> Issue list" where
  "check_line_length lineNum raw =
     (if length raw > 80 then
        [issue lineNum 81 (asc ''max-line-length'')
           (asc ''Line exceeds 80 characters ('' @ num_str (length raw) @ asc '').'') Warning]
      else [])"

text \<open>The syntax, package and import lines seen.\<close>

definition track_declarations :: "int \<Rightarrow> jstring \<Rightarrow> vstate \<Rightarrow> vstate" where
  "track_declarations lineNum trimmed st =
     (let st1 = (if startsWith trimmed (asc ''syntax'')
                 then st\<lparr>hasSyntax := True, syntaxLine := lineNum\<rparr> else st);
          st2 = (if startsWith trimmed (asc ''package '')
                 then st1\<lparr>hasPackage := True, packageLine := lineNum\<rparr> else st1)
      in if startsWith trimmed (asc ''import '') then
           st2\<lparr>firstImportLine := (if firstImportLine st2 = - 1 then lineNum
                                     else firstImportLine st2),
               lastImportLine := lineNum,
               importLines := importLines st2 @
                 [\<lparr>i_line = lineNum, i_text = trimmed,
                   isPublic = startsWith trimmed (asc ''import public '')\<rparr>]\<rparr>
         else st2)"

definition check_message_name :: "int \<Rightarrow> jstring \<Rightarrow> Issue list" where
  "check_message_name lineNum trimmed =
     (case exec (re_named ''message'') trimmed of
        Some msgMatch \<Rightarrow>
          (let name = group_str msgMatch 1 in
           if \<not> test PASCAL_RE name then
             [issue lineNum 1 (asc ''message-name-pascal-case'')
                (asc ''Message name '' @ dq @ name @ dq @ asc '' should be PascalCase.'') Error]
           else [])
      | None \<Rightarrow> [])"

definition detect_enum :: "int \<Rightarrow> jstring \<Rightarrow> vstate \<Rightarrow> vstate" where
  "detect_enum lineNum trimmed st =
     (case exec (re_named ''enum'') trimmed of
        Some enumMatch \<Rightarrow>
          (let name = group_str enumMatch 1 in
           st\<lparr>issues := issues st @
                 (if \<not> test PASCAL_RE name then
                    [issue lineNum 1 (asc ''enum-name-pascal-case'')
                       (asc ''Enum name '' @ dq @ name @ dq @ asc '' should be PascalCase.'') Error]
                  else []),
               currentEnum := Some \<lparr>e_name = name, e_startLine = lineNum, e_values = []\<rparr>,
               inEnum := True\<rparr>)
      | None \<Rightarrow> st)"

text \<open>A value line inside the current enum \<open>e\<close>: the enum with the value, and the issue.\<close>

definition enum_value_line :: "int \<Rightarrow> jstring \<Rightarrow> enum_block \<Rightarrow> enum_block \<times> Issue list" where
  "enum_value_line lineNum trimmed e =
     (case exec re_value trimmed of
        Some valMatch \<Rightarrow>
          (let vName = group_str valMatch 1;
               vNum = parseInt (group_str valMatch 2)
           in (e\<lparr>e_values := e_values e @ [\<lparr>v_name = vName, v_number = vNum, v_line = lineNum\<rparr>]\<rparr>,
               if \<not> test UPPER_SNAKE_RE vName then
                 [issue lineNum 1 (asc ''enum-value-upper-snake-case'')
                    (asc ''Enum value '' @ dq @ vName @ dq @ asc '' should be UPPER_SNAKE_CASE.'')
                    Error]
               else []))
      | None \<Rightarrow> (e, []))"

text \<open>The check at the line that closes the enum \<open>e\<close>.\<close>

definition enum_close_check :: "enum_block \<Rightarrow> error + Issue list" where
  "enum_close_check e =
     (if length (e_values e) > 0 then
        (case at (e_values e) 0 of
           Inl err \<Rightarrow> Inl err
         | Inr first \<Rightarrow>
             if v_number first \<noteq> 0 \<or> \<not> endsWith (v_name first) (asc ''UNSPECIFIED'') then
               Inr [issue (e_startLine e) 1 (asc ''enum-first-value-unspecified'')
                      (asc ''Enum '' @ dq @ e_name e @ dq
                       @ asc '' should have an UNSPECIFIED value as the first entry (= 0).'')
                      Error]
             else Inr [])
      else Inr [])"

definition enum_values :: "int \<Rightarrow> jstring \<Rightarrow> vstate \<Rightarrow> error + vstate" where
  "enum_values lineNum trimmed st =
     (case currentEnum st of
        Some e0 \<Rightarrow>
          if inEnum st then
            (case enum_value_line lineNum trimmed e0 of
               (e, is) \<Rightarrow>
                 if includes_str trimmed (asc ''}'') then
                   (case enum_close_check e of
                      Inl err \<Rightarrow> Inl err
                    | Inr cs \<Rightarrow>
                        Inr (st\<lparr>issues := issues st @ is @ cs,
                                 enumBlocks := enumBlocks st @ [e],
                                 currentEnum := None, inEnum := False\<rparr>))
                 else Inr (st\<lparr>issues := issues st @ is, currentEnum := Some e\<rparr>))
          else Inr st
      | None \<Rightarrow> Inr st)"

definition check_field_name :: "int \<Rightarrow> jstring \<Rightarrow> bool \<Rightarrow> Issue list" where
  "check_field_name lineNum trimmed in_enum =
     (case exec re_field_name trimmed of
        Some fieldMatch \<Rightarrow>
          if \<not> in_enum then
            (let fName = group_str fieldMatch 1 in
             if \<not> test SNAKE_RE fName then
               [issue lineNum 1 (asc ''field-name-snake-case'')
                  (asc ''Field name '' @ dq @ fName @ dq @ asc '' should be snake_case.'') Error]
             else [])
          else []
      | None \<Rightarrow> [])"

definition check_comments :: "int \<Rightarrow> jstring \<Rightarrow> vstate \<Rightarrow> vstate" where
  "check_comments lineNum trimmed st =
     (let st1 = (if startsWith trimmed (asc ''service '') then
                   st\<lparr>inService := True, serviceHasComment := prevLineIsComment st,
                      issues := issues st @
                        (if \<not> prevLineIsComment st then
                           [issue lineNum 1 (asc ''service-comment'')
                              (asc ''Service should have a comment.'') Warning]
                         else [])\<rparr>
                 else st)
      in if inService st1 \<and> startsWith trimmed (asc ''rpc '') then
           st1\<lparr>issues := issues st1 @
                 (if \<not> prevLineIsComment st1 then
                    [issue lineNum 1 (asc ''rpc-comment'') (asc ''RPC should have a comment.'')
                       Warning]
                  else [])\<rparr>
         else st1)"

text \<open>The loop over the code units of the line that follows the braces.\<close>

definition track_brace :: "jchar \<Rightarrow> vstate \<Rightarrow> vstate" where
  "track_brace ch st =
     (let st1 = (if ch = of_char CHR ''{'' then st\<lparr>braceDepth := braceDepth st + 1\<rparr> else st)
      in if ch = of_char CHR ''}'' then
           (let st2 = st1\<lparr>braceDepth := braceDepth st1 - 1\<rparr>
            in if braceDepth st2 = 0 then st2\<lparr>inService := False\<rparr> else st2)
         else st1)"

definition style_line :: "int \<Rightarrow> jstring \<Rightarrow> vstate \<Rightarrow> error + vstate" where
  "style_line lineNum raw st =
     (let trimmed = trim raw;
          st1 = st\<lparr>issues := issues st @ check_line_length lineNum raw\<rparr>;
          isComment = is_comment_line trimmed;
          st2 = track_declarations lineNum trimmed st1;
          st3 = st2\<lparr>issues := issues st2 @ check_message_name lineNum trimmed\<rparr>;
          st4 = detect_enum lineNum trimmed st3
      in case enum_values lineNum trimmed st4 of
           Inl err \<Rightarrow> Inl err
         | Inr st5 \<Rightarrow>
             (let st6 = st5\<lparr>issues := issues st5 @ check_field_name lineNum trimmed (inEnum st5)\<rparr>;
                  st7 = check_comments lineNum trimmed st6;
                  st8 = fold track_brace trimmed st7
              in Inr (st8\<lparr>prevLineIsComment := isComment\<rparr>)))"

fun style_loop :: "jstring list \<Rightarrow> int \<Rightarrow> vstate \<Rightarrow> error + vstate" where
  "style_loop [] lineNum st = Inr st"
| "style_loop (raw # lines) lineNum st =
     (case style_line lineNum raw st of
        Inl e \<Rightarrow> Inl e
      | Inr st' \<Rightarrow> style_loop lines (lineNum + 1) st')"

definition check_trailing_newline :: "jstring \<Rightarrow> jstring list \<Rightarrow> Issue list" where
  "check_trailing_newline content lines =
     (if length content > 0 \<and> \<not> endsWith content [NL] then
        [issue (int (length lines)) 1 (asc ''trailing-newline'')
           (asc ''File should end with a trailing newline.'') Warning]
      else [])"

definition style_init :: "Issue list \<Rightarrow> vstate" where
  "style_init is =
     \<lparr>issues = is, hasSyntax = False, hasPackage = False, syntaxLine = - 1, packageLine = - 1,
      firstImportLine = - 1, lastImportLine = - 1, importLines = [],
      prevLineIsComment = False, enumBlocks = [], currentEnum = None, braceDepth = 0,
      inService = False, serviceHasComment = False, inEnum = False\<rparr>"

definition check_file_structure :: "vstate \<Rightarrow> Issue list" where
  "check_file_structure st =
     (if \<not> hasSyntax st then
        [issue 1 1 (asc ''syntax-declaration'')
           (asc ''File should start with a syntax declaration (e.g., syntax = '' @ dq
            @ asc ''proto3'' @ dq @ asc '';).'') Error]
      else [])
     @ (if \<not> hasPackage st then
          [issue 1 1 (asc ''package-declaration'') (asc ''File should declare a package.'') Warning]
        else [])
     @ (if hasSyntax st \<and> hasPackage st \<and> packageLine st < syntaxLine st then
          [issue (packageLine st) 1 (asc ''file-structure'')
             (asc ''Package declaration should come after the syntax declaration.'') Error]
        else [])"

text \<open>The loop over the imports; \<open>seenNonPublic\<close> is its flag.\<close>

fun check_import_order :: "bool \<Rightarrow> import_line list \<Rightarrow> Issue list" where
  "check_import_order seenNonPublic [] = []"
| "check_import_order seenNonPublic (imp # imps) =
     (let seen = (if \<not> isPublic imp then True else seenNonPublic)
      in (if isPublic imp \<and> seen then
            [issue (i_line imp) 1 (asc ''import-ordering'')
               (asc ''Public imports should come before other imports.'') Warning]
          else [])
         @ check_import_order seen imps)"

text \<open>All the issues of both passes, in the order in which the source pushes them.\<close>

definition all_issues :: "jstring \<Rightarrow> error + Issue list" where
  "all_issues content =
     (let lines = split_nl content in
      case style_loop lines 1 (style_init (check_trailing_newline content lines)) of
        Inl e \<Rightarrow> Inl e
      | Inr st \<Rightarrow>
          (case validateSyntax lines of
             Inl e \<Rightarrow> Inl e
           | Inr syntaxIssues \<Rightarrow>
               Inr (issues st @ check_file_structure st
                    @ check_import_order False (importLines st) @ syntaxIssues)))"

text \<open>
  \<^verbatim>\<open>issues.sort((a, b) => a.line - b.line || a.column - b.column)\<close>: the sort of the
  standard is stable; the key is the pair of line and column in the lexicographic order.
\<close>

definition issue_key :: "Issue \<Rightarrow> int \<times> int" where
  "issue_key i = (line i, column i)"

definition sort_issues :: "Issue list \<Rightarrow> Issue list" where
  "sort_issues is = sort_key issue_key is"

definition report :: "Issue list \<Rightarrow> ValidationResult" where
  "report is =
     (let sorted_issues = sort_issues is;
          errs = filter (\<lambda>i. severity i = Error) sorted_issues
      in \<lparr>valid = (length errs = 0), errors = errs,
          warnings = filter (\<lambda>i. severity i = Warning) sorted_issues,
          info = filter (\<lambda>i. severity i = Info) sorted_issues\<rparr>)"

definition validate :: "jstring \<Rightarrow> error + ValidationResult" where
  "validate content =
     (case all_issues content of Inl e \<Rightarrow> Inl e | Inr is \<Rightarrow> Inr (report is))"

section \<open>Evaluation and termination\<close>

lemma star_iter_Nil: "star_iter r n [] = []"
  by (simp add: star_iter_def)

lemma star_iter_Cons:
  "star_iter r n (x # xs) =
     (if length (rest x) < n then rmatch (Star r) x else []) @ star_iter r n xs"
  by (simp add: star_iter_def)

lemma rmatch_Star: "rmatch (Star r) st = star_iter r (length (rest st)) (rmatch r st) @ [st]"
  by (subst rmatch.simps) (simp add: star_iter_def)

declare rmatch.simps [code del]

lemmas rmatch_code [code] =
  rmatch.simps(1-6) rmatch_Star rmatch.simps(8-10) star_iter_Nil star_iter_Cons

lemma skip_blank_ge: "skip_blank lines j = Inr k \<Longrightarrow> j \<le> k"
proof (induction lines j rule: skip_blank.induct)
  case (1 lines nextIdx)
  show ?case
  proof (cases "nextIdx < length lines \<and> trim (lines ! nextIdx) = []")
    case True
    with "1.prems" have "skip_blank lines (Suc nextIdx) = Inr k"
      by (subst (asm) skip_blank.simps) (simp add: at_def)
    with "1.IH" True have "Suc nextIdx \<le> k"
      by (simp add: at_def)
    then show ?thesis by simp
  next
    case False
    with "1.prems" show ?thesis
      by (subst (asm) skip_blank.simps) (auto simp: at_def split: if_splits)
  qed
qed

lemma merge_brace_ge:
  assumes "merge_brace lines i txt = Inr (txt', i')"
  shows "i \<le> i'"
proof (cases "test BLOCK_OPENERS txt \<and> \<not> includes_str txt (asc ''{'')")
  case False
  with assms show ?thesis by (auto simp: merge_brace_def)
next
  case True
  show ?thesis
  proof (cases "skip_blank lines (i + 1)")
    case (Inl e)
    with assms True show ?thesis by (simp add: merge_brace_def)
  next
    case (Inr n)
    then have "i + 1 \<le> n" by (rule skip_blank_ge)
    with assms True Inr show ?thesis
      by (auto simp: merge_brace_def split: if_splits sum.splits)
  qed
qed

lemma format_line_ge:
  assumes "format_line lines i st = Inr (i', st')"
  shows "i \<le> i'"
proof (cases "at lines i")
  case (Inl e)
  with assms show ?thesis by (simp add: format_line_def)
next
  case (Inr l)
  define trimmed where "trimmed = trim (trimEnd l)"
  show ?thesis
  proof (cases "inBlockComment st \<or> startsWith trimmed (asc ''/*'') \<or> trimmed = []
       \<or> trimmed = asc ''}'' \<or> trimmed = asc ''};''")
    case True
    with assms Inr show ?thesis
      unfolding format_line_def Let_def trimmed_def
      by (simp split: if_splits)
  next
    case False
    obtain txt0 ty where c: "classify trimmed = (txt0, ty)"
      by (cases "classify trimmed")
    from assms Inr False c have "\<exists>txt. merge_brace lines i txt0 = Inr (txt, i')"
      unfolding format_line_def Let_def trimmed_def
      by (simp split: sum.splits prod.splits)
    then show ?thesis
      using merge_brace_ge by blast
  qed
qed

termination first_pass
proof (relation "measure (\<lambda>(lines, i, st). length lines - i)")
  show "wf (measure (\<lambda>(lines, i, st). length lines - i))"
    by simp
next
  fix lines :: "jstring list" and i :: nat and st :: fstate and x2 x y
  assume "i < length lines" and "format_line lines i st = Inr x2" and "(x, y) = x2"
  then have "i \<le> x"
    using format_line_ge [of lines i st x y] by simp
  with \<open>i < length lines\<close>
  show "((lines, Suc x, y), (lines, i, st)) \<in> measure (\<lambda>(lines, i, st). length lines - i)"
    by simp
qed

declare first_pass.simps [simp del]

section \<open>Facts about matching\<close>

lemma step_char_elem:
  "st' \<in> set (step_char p st) \<Longrightarrow> caps st' = caps st \<and> (\<exists>c. rest st = c # rest st' \<and> p c)"
  by (cases st; cases "rest st") (auto split: if_splits)

lemma rmatch_Star_elem:
  assumes "st' \<in> set (rmatch (Star r) st)"
  shows "st' = st \<or> (\<exists>mid \<in> set (rmatch r st). length (rest mid) < length (rest st)
           \<and> st' \<in> set (rmatch (Star r) mid))"
  using assms by (subst (asm) rmatch.simps(7)) (auto split: if_splits)

lemma rmatch_Grp_elem:
  assumes "st' \<in> set (rmatch (Grp n r) st)"
  shows "\<exists>mid \<in> set (rmatch r st). rest st' = rest mid \<and> (\<exists>g. caps st' = (n, g) # caps mid)"
  using assms by auto

lemma rmatch_caps_mono:
  "st' \<in> set (rmatch r st) \<Longrightarrow> fst ` set (caps st) \<subseteq> fst ` set (caps st')"
proof (induction r st arbitrary: st' rule: rmatch.induct)
  case (1 st)
  then show ?case by simp
next
  case (2 st)
  then show ?case using step_char_elem by fastforce
next
  case (3 as st)
  then show ?case using step_char_elem by fastforce
next
  case (4 as st)
  then show ?case using step_char_elem by fastforce
next
  case (5 r1 r2 st)
  from "5.prems" obtain mid where m: "mid \<in> set (rmatch r1 st)" "st' \<in> set (rmatch r2 mid)"
    by auto
  from "5.IH"(1) [OF m(1)] "5.IH"(2) [OF m(1) m(2)] show ?case by blast
next
  case (6 r1 r2 st)
  from "6.prems" have "st' \<in> set (rmatch r1 st) \<or> st' \<in> set (rmatch r2 st)"
    by simp
  with "6.IH" show ?case by blast
next
  case (7 r st)
  from rmatch_Star_elem [OF "7.prems"] show ?case
  proof
    assume "st' = st"
    then show ?thesis by simp
  next
    assume "\<exists>mid \<in> set (rmatch r st). length (rest mid) < length (rest st)
           \<and> st' \<in> set (rmatch (Star r) mid)"
    then obtain mid where m: "mid \<in> set (rmatch r st)" "length (rest mid) < length (rest st)"
        "st' \<in> set (rmatch (Star r) mid)"
      by blast
    from "7.IH"(1) [OF m(1)] "7.IH"(2) [OF m(1) m(2) m(3)] show ?thesis by blast
  qed
next
  case (8 n r st)
  from rmatch_Grp_elem [OF "8.prems"] obtain mid g
    where m: "mid \<in> set (rmatch r st)" "caps st' = (n, g) # caps mid"
    by blast
  from "8.IH" [OF m(1)] m(2) show ?case by auto
next
  case (9 st)
  then show ?case by (simp split: if_splits)
next
  case (10 st)
  then show ?case by (simp split: if_splits)
qed


text \<open>The groups that every match of a regular expression sets.\<close>

fun sets_group :: "nat \<Rightarrow> re \<Rightarrow> bool" where
  "sets_group n (Grp m r) = (n = m \<or> sets_group n r)"
| "sets_group n (Seq r1 r2) = (sets_group n r1 \<or> sets_group n r2)"
| "sets_group n (Alt r1 r2) = (sets_group n r1 \<and> sets_group n r2)"
| "sets_group n r = False"

lemma sets_group_caps:
  "sets_group n r \<Longrightarrow> st' \<in> set (rmatch r st) \<Longrightarrow> n \<in> fst ` set (caps st')"
proof (induction r arbitrary: st st')
  case (Seq r1 r2)
  from Seq.prems(2) obtain mid where m: "mid \<in> set (rmatch r1 st)" "st' \<in> set (rmatch r2 mid)"
    by auto
  show ?case
  proof (cases "sets_group n r1")
    case True
    from Seq.IH(1) [OF True m(1)] rmatch_caps_mono [OF m(2)] show ?thesis by blast
  next
    case False
    with Seq.prems(1) have "sets_group n r2" by simp
    from Seq.IH(2) [OF this m(2)] show ?thesis .
  qed
next
  case (Alt r1 r2)
  then show ?case by auto
next
  case (Grp m r)
  then show ?case by (auto split: if_splits)
qed simp_all

lemma search_from_elem:
  "search_from r b s i = Some m \<Longrightarrow> \<exists>b' s'. snd m \<in> set (rmatch r (MState b' s' [])) \<and> suffix s' s"
proof (induction s arbitrary: b i)
  case Nil
  then show ?case
    by (cases "rmatch r (MState b [] [])") (auto intro!: exI [of _ b] exI [of _ "[]"])
next
  case (Cons c cs)
  show ?case
  proof (cases "rmatch r (MState b (c # cs) [])")
    case Nil
    with Cons.prems have "search_from r False cs (Suc i) = Some m" by simp
    from Cons.IH [OF this] show ?thesis
      by (meson suffix_Cons)
  next
    case (Cons x xs)
    with Cons.prems have "snd m = x" by auto
    with Cons show ?thesis
      by (intro exI [of _ b] exI [of _ "c # cs"]) simp
  qed
qed

lemma exec_group:
  assumes "exec r s = Some m" and "sets_group n r"
  shows "\<exists>g. group m n = Some g"
proof -
  from assms(1) obtain b' s' where "snd m \<in> set (rmatch r (MState b' s' []))"
    unfolding exec_def using search_from_elem by blast
  from sets_group_caps [OF assms(2) this] have "map_of (caps (snd m)) n \<noteq> None"
    by (simp add: map_of_eq_None_iff)
  then show ?thesis
    by (auto simp: group_def)
qed


section \<open>The formatter never fails\<close>

lemma split_line_total: "\<exists>ls. split_line raw = Inr ls"
proof (cases "exec re_split (trim raw)")
  case None
  then show ?thesis by (simp add: split_line_def)
next
  case (Some m)
  have "sets_group 1 re_split" "sets_group 2 re_split"
    by (simp_all add: re_split_def Seqs_def)
  with Some obtain g1 g2 where "group m 1 = Some g1" "group m 2 = Some g2"
    using exec_group by blast
  with Some show ?thesis by (simp add: split_line_def)
qed

lemma split_lines_total: "\<exists>ls. split_lines rawLines = Inr ls"
proof (induction rawLines)
  case Nil
  show ?case by simp
next
  case (Cons raw rawLines)
  obtain ls where "split_line raw = Inr ls"
    using split_line_total by blast
  with Cons show ?case by auto
qed

lemma skip_blank_total: "\<exists>k. skip_blank lines j = Inr k"
proof (induction lines j rule: skip_blank.induct)
  case (1 lines nextIdx)
  show ?case
  proof (cases "nextIdx < length lines \<and> trim (lines ! nextIdx) = []")
    case True
    with "1.IH" [of "lines ! nextIdx"] obtain k where "skip_blank lines (Suc nextIdx) = Inr k"
      by (auto simp: at_def)
    with True show ?thesis
      by (subst skip_blank.simps) (simp add: at_def)
  next
    case False
    then show ?thesis
      by (subst skip_blank.simps) (auto simp: at_def)
  qed
qed

lemma merge_brace_total: "\<exists>r. merge_brace lines i txt = Inr r"
proof -
  obtain k where "skip_blank lines (i + 1) = Inr k"
    using skip_blank_total by blast
  then show ?thesis
    by (simp add: merge_brace_def at_def)
qed

text \<open>No token is at a negative depth.\<close>

definition depths_ok :: "fstate \<Rightarrow> bool" where
  "depths_ok st = (0 \<le> cur_depth st \<and> list_all (\<lambda>t. 0 \<le> t_depth t) (formatted st))"

lemma format_line_total:
  assumes "i < length lines" and "depths_ok st"
  shows "\<exists>i' st'. format_line lines i st = Inr (i', st') \<and> depths_ok st'"
proof -
  from assms(1) have l: "at lines i = Inr (lines ! i)" by (simp add: at_def)
  define trimmed where "trimmed = trim (trimEnd (lines ! i))"
  show ?thesis
  proof (cases "inBlockComment st \<or> startsWith trimmed (asc ''/*'') \<or> trimmed = []
       \<or> trimmed = asc ''}'' \<or> trimmed = asc ''};''")
    case True
    with assms(2) l show ?thesis
      unfolding format_line_def Let_def trimmed_def depths_ok_def
      by auto
  next
    case False
    obtain txt0 ty where c: "classify trimmed = (txt0, ty)"
      by (cases "classify trimmed")
    obtain tx i' where m: "merge_brace lines i txt0 = Inr (tx, i')"
      using merge_brace_total by (metis surj_pair)
    from False assms(2) l c m show ?thesis
      unfolding format_line_def Let_def depths_ok_def
      by (simp add: trimmed_def [symmetric])
  qed
qed

lemma first_pass_total:
  "depths_ok st \<Longrightarrow> \<exists>st'. first_pass lines i st = Inr st' \<and> depths_ok st'"
proof (induction lines i st rule: first_pass.induct)
  case (1 lines i st)
  show ?case
  proof (cases "i < length lines")
    case True
    from format_line_total [OF True "1.prems"] obtain i' st'
      where f: "format_line lines i st = Inr (i', st')" "depths_ok st'"
      by blast
    from "1.IH" [OF True f(1) refl f(2)] f(1) True show ?thesis
      by (subst first_pass.simps) simp
  next
    case False
    with "1.prems" show ?thesis
      by (subst first_pass.simps) simp
  qed
qed

lemma second_pass_total:
  "list_all (\<lambda>t. 0 \<le> t_depth t) toks \<Longrightarrow> \<exists>result. second_pass prev toks = Inr result"
proof (induction toks arbitrary: prev)
  case Nil
  show ?case by simp
next
  case (Cons cur toks)
  then obtain result where "second_pass (Some cur) toks = Inr result"
    by auto
  with Cons.prems show ?case
    by (simp add: indent_def repeat_def)
qed

lemma tokens_total: "\<exists>toks. tokens content = Inr toks \<and> list_all (\<lambda>t. 0 \<le> t_depth t) toks"
proof -
  obtain lines where l: "split_lines (split_nl content) = Inr lines"
    using split_lines_total by blast
  have "depths_ok format_init"
    by (simp add: depths_ok_def format_init_def)
  from first_pass_total [OF this] obtain st
    where f: "first_pass lines 0 format_init = Inr st" "depths_ok st"
    by blast
  with l show ?thesis
    by (simp add: tokens_def depths_ok_def)
qed

lemma format_total: "\<exists>out. format content = Inr out"
proof -
  obtain toks where t: "tokens content = Inr toks" "list_all (\<lambda>t. 0 \<le> t_depth t) toks"
    using tokens_total by blast
  from t(2) obtain result where "second_pass None toks = Inr result"
    using second_pass_total by blast
  with t(1) show ?thesis
    by (simp add: format_def render_def)
qed

section \<open>The last code unit of the formatter's lines\<close>



























section \<open>Neither pass of the validator fails\<close>

lemma currentContext_of_total: "\<exists>c. currentContext_of stack = Inr c"
  by (simp add: currentContext_of_def at_def)

lemma syntax_line_total: "\<exists>st'. syntax_line n raw st = Inr st'"
proof -
  obtain c where "currentContext_of (braceStack st) = Inr c"
    using currentContext_of_total by blast
  then show ?thesis
    by (simp add: syntax_line_def Let_def)
qed

lemma syntax_loop_total: "\<exists>st'. syntax_loop lines n st = Inr st'"
proof (induction lines arbitrary: n st)
  case Nil
  show ?case by simp
next
  case (Cons raw lines)
  obtain st1 where "syntax_line n raw st = Inr st1"
    using syntax_line_total by blast
  with Cons show ?case by simp
qed

lemma validateSyntax_total: "\<exists>is. validateSyntax lines = Inr is"
proof -
  obtain st where "syntax_loop lines 1 syntax_init = Inr st"
    using syntax_loop_total by blast
  then show ?thesis by (simp add: validateSyntax_def)
qed

lemma enum_close_check_total: "\<exists>cs. enum_close_check e = Inr cs"
  by (simp add: enum_close_check_def at_def)

lemma enum_values_total: "\<exists>st'. enum_values n trimmed st = Inr st'"
proof (cases "currentEnum st")
  case None
  then show ?thesis by (simp add: enum_values_def)
next
  case (Some e0)
  obtain e "is" where v: "enum_value_line n trimmed e0 = (e, is)"
    by (cases "enum_value_line n trimmed e0")
  obtain cs where "enum_close_check e = Inr cs"
    using enum_close_check_total by blast
  with Some v show ?thesis by (simp add: enum_values_def)
qed

lemma style_line_total: "\<exists>st'. style_line n raw st = Inr st'"
proof -
  define st4 where "st4 = detect_enum n (trim raw)
     ((track_declarations n (trim raw) (st\<lparr>issues := issues st @ check_line_length n raw\<rparr>))
       \<lparr>issues := issues (track_declarations n (trim raw) (st\<lparr>issues := issues st @ check_line_length n raw\<rparr>))
           @ check_message_name n (trim raw)\<rparr>)"
  obtain st5 where "enum_values n (trim raw) st4 = Inr st5"
    using enum_values_total by blast
  then show ?thesis
    unfolding style_line_def Let_def st4_def by simp
qed

lemma style_loop_total: "\<exists>st'. style_loop lines n st = Inr st'"
proof (induction lines arbitrary: n st)
  case Nil
  show ?case by simp
next
  case (Cons raw lines)
  obtain st1 where "style_line n raw st = Inr st1"
    using style_line_total by blast
  with Cons show ?case by simp
qed

lemma all_issues_total: "\<exists>is. all_issues content = Inr is"
proof -
  obtain st where s: "style_loop (split_nl content) 1
      (style_init (check_trailing_newline content (split_nl content))) = Inr st"
    using style_loop_total by blast
  obtain ys where "validateSyntax (split_nl content) = Inr ys"
    using validateSyntax_total by blast
  with s show ?thesis by (simp add: all_issues_def Let_def)
qed

lemma validate_total: "\<exists>r. validate content = Inr r"
proof -
  obtain "is" where "all_issues content = Inr is"
    using all_issues_total by blast
  then show ?thesis by (simp add: validate_def)
qed

section \<open>The issues of the two layout rules\<close>

text \<open>An issue of a rule other than the two of the file's layout.\<close>

definition other_rule :: "Issue \<Rightarrow> bool" where
  "other_rule i = (rule i \<noteq> asc ''trailing-newline'' \<and> rule i \<noteq> asc ''max-line-length'')"

lemma other_rule_issue:
  "other_rule (issue l c (asc ''syntax-error'') m s)"
  "other_rule (issue l c (asc ''message-name-pascal-case'') m s)"
  "other_rule (issue l c (asc ''enum-name-pascal-case'') m s)"
  "other_rule (issue l c (asc ''enum-value-upper-snake-case'') m s)"
  "other_rule (issue l c (asc ''enum-first-value-unspecified'') m s)"
  "other_rule (issue l c (asc ''field-name-snake-case'') m s)"
  "other_rule (issue l c (asc ''service-comment'') m s)"
  "other_rule (issue l c (asc ''rpc-comment'') m s)"
  "other_rule (issue l c (asc ''syntax-declaration'') m s)"
  "other_rule (issue l c (asc ''package-declaration'') m s)"
  "other_rule (issue l c (asc ''file-structure'') m s)"
  "other_rule (issue l c (asc ''import-ordering'') m s)"
  by (simp_all add: other_rule_def issue_def asc_def)

lemma other_rule_filter:
  "list_all other_rule xs \<Longrightarrow> filter (\<lambda>i. rule i = asc ''trailing-newline'') xs = []"
  "list_all other_rule xs \<Longrightarrow> filter (\<lambda>i. rule i = asc ''max-line-length'') xs = []"
  by (induction xs) (auto simp: other_rule_def)

lemma check_message_name_other: "list_all other_rule (check_message_name n t)"
  by (simp add: check_message_name_def Let_def other_rule_issue split: option.splits)

lemma check_field_name_other: "list_all other_rule (check_field_name n t b)"
  by (simp add: check_field_name_def Let_def other_rule_issue split: option.splits)

lemma check_file_structure_other: "list_all other_rule (check_file_structure st)"
  by (simp add: check_file_structure_def other_rule_issue)

lemma check_import_order_other: "list_all other_rule (check_import_order b imps)"
  by (induction imps arbitrary: b) (simp_all add: Let_def other_rule_issue)

lemma track_declarations_issues: "issues (track_declarations n t st) = issues st"
  by (simp add: track_declarations_def Let_def)

lemma detect_enum_issues:
  "\<exists>new. issues (detect_enum n t st) = issues st @ new \<and> list_all other_rule new"
  by (cases "exec (re_named ''enum'') t") (simp_all add: detect_enum_def Let_def other_rule_issue)

lemma enum_value_line_other: "list_all other_rule (snd (enum_value_line n t e))"
  by (simp add: enum_value_line_def Let_def other_rule_issue split: option.splits)

lemma enum_close_check_other: "enum_close_check e = Inr cs \<Longrightarrow> list_all other_rule cs"
  by (auto simp: enum_close_check_def other_rule_issue split: if_splits sum.splits)

lemma enum_values_issues:
  assumes "enum_values n t st = Inr st'"
  shows "\<exists>new. issues st' = issues st @ new \<and> list_all other_rule new"
proof (cases "currentEnum st")
  case None
  with assms show ?thesis by (simp add: enum_values_def)
next
  case (Some e0)
  obtain e "is" where v: "enum_value_line n t e0 = (e, is)"
    by (cases "enum_value_line n t e0")
  with enum_value_line_other [of n t e0] have o: "list_all other_rule is" by simp
  show ?thesis
  proof (cases "inEnum st \<and> includes_str t (asc ''}'')")
    case True
    with assms Some v obtain cs where c: "enum_close_check e = Inr cs"
        and s: "issues st' = issues st @ is @ cs"
      by (auto simp: enum_values_def split: sum.splits)
    from enum_close_check_other [OF c] o s show ?thesis by simp
  next
    case False
    with assms Some v o show ?thesis
      by (auto simp: enum_values_def split: if_splits)
  qed
qed

lemma check_comments_issues:
  "\<exists>new. issues (check_comments n t st) = issues st @ new \<and> list_all other_rule new"
  by (simp add: check_comments_def Let_def other_rule_issue)

lemma track_brace_issues: "issues (track_brace ch st) = issues st"
  by (simp add: track_brace_def Let_def)

lemma fold_track_brace_issues: "issues (fold track_brace t st) = issues st"
  by (induction t arbitrary: st) (simp_all add: track_brace_issues)

lemma style_line_issues:
  assumes "style_line n raw st = Inr st'"
  shows "\<exists>new. issues st' = issues st @ check_line_length n raw @ new \<and> list_all other_rule new"
proof -
  define t where "t = trim raw"
  define st3 where "st3 = (track_declarations n t (st\<lparr>issues := issues st @ check_line_length n raw\<rparr>))
       \<lparr>issues := issues (track_declarations n t (st\<lparr>issues := issues st @ check_line_length n raw\<rparr>))
           @ check_message_name n t\<rparr>"
  define st4 where "st4 = detect_enum n t st3"
  from assms obtain st5 where e: "enum_values n t st4 = Inr st5"
    and s: "st' = (fold track_brace t
          (check_comments n t (st5\<lparr>issues := issues st5 @ check_field_name n t (inEnum st5)\<rparr>)))
        \<lparr>prevLineIsComment := is_comment_line t\<rparr>"
    by (auto simp: style_line_def Let_def t_def st3_def st4_def split: sum.splits)
  have i3: "issues st3 = issues st @ check_line_length n raw @ check_message_name n t"
    by (simp add: st3_def track_declarations_issues)
  obtain n4 where i4: "issues st4 = issues st3 @ n4" "list_all other_rule n4"
    unfolding st4_def using detect_enum_issues by blast
  obtain n5 where i5: "issues st5 = issues st4 @ n5" "list_all other_rule n5"
    using enum_values_issues [OF e] by blast
  obtain n7 where i7: "issues (check_comments n t (st5\<lparr>issues := issues st5 @ check_field_name n t (inEnum st5)\<rparr>))
      = (issues st5 @ check_field_name n t (inEnum st5)) @ n7" "list_all other_rule n7"
    using check_comments_issues [of n t "st5\<lparr>issues := issues st5 @ check_field_name n t (inEnum st5)\<rparr>"]
    by auto
  have "issues st' = issues (check_comments n t
      (st5\<lparr>issues := issues st5 @ check_field_name n t (inEnum st5)\<rparr>))"
    by (simp add: s fold_track_brace_issues)
  also have "\<dots> = (issues st5 @ check_field_name n t (inEnum st5)) @ n7"
    by (rule i7(1))
  also have "\<dots> = issues st @ check_line_length n raw
      @ (check_message_name n t @ n4 @ n5 @ check_field_name n t (inEnum st5) @ n7)"
    by (simp add: i5 i4 i3)
  finally have "issues st' = issues st @ check_line_length n raw
      @ (check_message_name n t @ n4 @ n5 @ check_field_name n t (inEnum st5) @ n7)" .
  moreover have "list_all other_rule
      (check_message_name n t @ n4 @ n5 @ check_field_name n t (inEnum st5) @ n7)"
    by (simp add: check_message_name_other check_field_name_other i4 i5 i7)
  ultimately show ?thesis by blast
qed

text \<open>The issues of the lines longer than 80, from line \<open>n\<close> on.\<close>

fun line_length_issues :: "int \<Rightarrow> jstring list \<Rightarrow> Issue list" where
  "line_length_issues n [] = []"
| "line_length_issues n (raw # lines) = check_line_length n raw @ line_length_issues (n + 1) lines"

lemma check_line_length_filter:
  "filter (\<lambda>i. rule i = asc ''trailing-newline'') (check_line_length n raw) = []"
  "filter (\<lambda>i. rule i = asc ''max-line-length'') (check_line_length n raw) = check_line_length n raw"
  by (simp_all add: check_line_length_def issue_def asc_def)

lemma style_loop_issues:
  "style_loop lines n st = Inr st' \<Longrightarrow>
   filter (\<lambda>i. rule i = asc ''trailing-newline'') (issues st')
     = filter (\<lambda>i. rule i = asc ''trailing-newline'') (issues st)
   \<and> filter (\<lambda>i. rule i = asc ''max-line-length'') (issues st')
     = filter (\<lambda>i. rule i = asc ''max-line-length'') (issues st) @ line_length_issues n lines"
proof (induction lines arbitrary: n st)
  case Nil
  then show ?case by simp
next
  case (Cons raw lines)
  from Cons.prems obtain st1 where l: "style_line n raw st = Inr st1"
      and r: "style_loop lines (n + 1) st1 = Inr st'"
    by (auto split: sum.splits)
  from style_line_issues [OF l] obtain new
    where i: "issues st1 = issues st @ check_line_length n raw @ new" "list_all other_rule new"
    by blast
  from Cons.IH [OF r] show ?case
    by (simp add: i check_line_length_filter other_rule_filter)
qed

lemma other_rule_syntax_error: "other_rule (syntax_error l c m)"
  by (simp add: syntax_error_def other_rule_issue)

lemma check_field_other: "list_all other_rule (check_field n code ctx)"
  by (simp add: check_field_def Let_def other_rule_syntax_error)

lemma check_enum_value_other: "list_all other_rule (check_enum_value n code ctx)"
  by (simp add: check_enum_value_def Let_def other_rule_syntax_error)

lemma check_rpc_other: "list_all other_rule (check_rpc n code ctx)"
  by (simp add: check_rpc_def other_rule_syntax_error)

lemma check_syntax_value_other: "list_all other_rule (check_syntax_value n code)"
  by (simp add: check_syntax_value_def Let_def other_rule_syntax_error split: option.splits)

lemma check_trailing_other: "list_all other_rule (check_trailing n code)"
  by (simp add: check_trailing_def Let_def other_rule_syntax_error)

lemma check_toplevel_other: "list_all other_rule (check_toplevel n code ctx b)"
  by (simp add: check_toplevel_def Let_def other_rule_syntax_error)

lemma check_semicolon_other: "list_all other_rule (check_semicolon n code)"
  by (simp add: check_semicolon_def other_rule_syntax_error)

lemma check_block_other:
  "list_all other_rule (s_issues st) \<Longrightarrow> list_all other_rule (s_issues (check_block n code bm st))"
  by (cases bm) (simp_all add: check_block_def Let_def other_rule_syntax_error)

lemma pop_braces_other:
  "list_all other_rule (s_issues st) \<Longrightarrow> list_all other_rule (s_issues (pop_braces k n st))"
  by (induction k arbitrary: st) (simp_all add: other_rule_syntax_error)

lemma syntax_code_other:
  assumes "list_all other_rule (s_issues st)"
  shows "list_all other_rule (s_issues (syntax_code n code ctx st))"
proof -
  define st1 where "st1 = st\<lparr>s_issues := s_issues st @ check_field n code ctx
                                 @ check_enum_value n code ctx\<rparr>"
  define st2 where "st2 = check_block n code (exec re_block code) st1"
  define st3 where "st3 = st2\<lparr>braceStack := push_braces n (exec re_block code \<noteq> None)
      (count_char CHR ''{'' code) (braceStack st2)\<rparr>"
  define st4 where "st4 = pop_braces (count_char CHR ''}'' code) n st3"
  have "list_all other_rule (s_issues st1)"
    using assms by (simp add: st1_def check_field_other check_enum_value_other)
  then have "list_all other_rule (s_issues st2)"
    unfolding st2_def by (rule check_block_other)
  then have "list_all other_rule (s_issues st3)"
    by (simp add: st3_def)
  then have "list_all other_rule (s_issues st4)"
    unfolding st4_def by (rule pop_braces_other)
  moreover have "syntax_code n code ctx st =
      st4\<lparr>s_issues := s_issues st4 @ check_rpc n code ctx @ check_syntax_value n code
             @ check_trailing n code @ check_toplevel n code ctx (expectingBody st4)
             @ check_semicolon n code\<rparr>"
    by (simp add: syntax_code_def Let_def st1_def st2_def st3_def st4_def)
  ultimately show ?thesis
    by (simp add: check_rpc_other check_syntax_value_other
        check_trailing_other check_toplevel_other check_semicolon_other)
qed

lemma syntax_line_other:
  "syntax_line n raw st = Inr st' \<Longrightarrow> list_all other_rule (s_issues st) \<Longrightarrow>
   list_all other_rule (s_issues st')"
  by (auto simp: syntax_line_def Let_def syntax_code_other split: if_splits sum.splits)

lemma syntax_loop_other:
  "syntax_loop lines n st = Inr st' \<Longrightarrow> list_all other_rule (s_issues st) \<Longrightarrow>
   list_all other_rule (s_issues st')"
proof (induction lines arbitrary: n st)
  case Nil
  then show ?case by simp
next
  case (Cons raw lines)
  from Cons.prems(1) obtain st1 where l: "syntax_line n raw st = Inr st1"
      and r: "syntax_loop lines (n + 1) st1 = Inr st'"
    by (auto split: sum.splits)
  from Cons.IH [OF r syntax_line_other [OF l Cons.prems(2)]] show ?case .
qed

lemma validateSyntax_other: "validateSyntax lines = Inr is \<Longrightarrow> list_all other_rule is"
proof -
  assume "validateSyntax lines = Inr is"
  then obtain st where s: "syntax_loop lines 1 syntax_init = Inr st"
      and i: "is = s_issues st @ map unclosed_issue (braceStack st)"
    by (auto simp: validateSyntax_def split: sum.splits)
  have "list_all other_rule (s_issues syntax_init)"
    by (simp add: syntax_init_def)
  from syntax_loop_other [OF s this] show ?thesis
    by (auto simp: i list_all_iff unclosed_issue_def other_rule_syntax_error)
qed

lemma line_length_issues_props:
  "length (line_length_issues n lines) = length (filter (\<lambda>l. 80 < length l) lines)
   \<and> list_all (\<lambda>i. column i = 81 \<and> severity i = Warning) (line_length_issues n lines)"
  by (induction lines arbitrary: n) (simp_all add: check_line_length_def issue_def)

lemma check_trailing_newline_filter:
  "filter (\<lambda>i. rule i = asc ''trailing-newline'') (check_trailing_newline content lines)
     = check_trailing_newline content lines"
  "filter (\<lambda>i. rule i = asc ''max-line-length'') (check_trailing_newline content lines) = []"
  by (simp_all add: check_trailing_newline_def issue_def asc_def)

lemma all_issues_by_rule:
  assumes "all_issues content = Inr is"
  shows "filter (\<lambda>i. rule i = asc ''trailing-newline'') is
           = check_trailing_newline content (split_nl content)"
    and "filter (\<lambda>i. rule i = asc ''max-line-length'') is
           = line_length_issues 1 (split_nl content)"
proof -
  define lines where "lines = split_nl content"
  from assms obtain st sy
    where l: "style_loop lines 1 (style_init (check_trailing_newline content lines)) = Inr st"
      and v: "validateSyntax lines = Inr sy"
      and i: "is = issues st @ check_file_structure st
                 @ check_import_order False (importLines st) @ sy"
    by (auto simp: all_issues_def Let_def lines_def split: sum.splits)
  have o: "list_all other_rule (check_file_structure st @ check_import_order False (importLines st) @ sy)"
    using validateSyntax_other [OF v]
    by (simp add: check_file_structure_other check_import_order_other)
  have i0: "issues (style_init xs) = xs" for xs
    by (simp add: style_init_def)
  from style_loop_issues [OF l] o
  show "filter (\<lambda>i. rule i = asc ''trailing-newline'') is
           = check_trailing_newline content (split_nl content)"
    and "filter (\<lambda>i. rule i = asc ''max-line-length'') is
           = line_length_issues 1 (split_nl content)"
    by (simp_all add: i i0 other_rule_filter check_trailing_newline_filter lines_def)
qed

lemma filter_rule_report:
  "filter (\<lambda>i. rule i = R) (filter P (sort_issues is))
     = filter P (sort_issues (filter (\<lambda>i. rule i = R) is))"
proof -
  have "filter (\<lambda>i. rule i = R) (filter P (sort_issues is))
      = filter P (filter (\<lambda>i. rule i = R) (sort_issues is))"
    by (simp add: conj_commute)
  then show ?thesis
    by (simp add: sort_issues_def filter_sort)
qed

section \<open>The blank lines of the third loop\<close>




section \<open>The issues of the rule of the first enum value\<close>











































section \<open>Blank lines and trimming\<close>

lemma trimEnd_Nil_iff: "trimEnd s = [] \<longleftrightarrow> (\<forall>c \<in> set s. is_space c)"
  by (auto simp: trimEnd_def dropWhile_eq_Nil_conv)













lemma trimStart_suffix: "suffix (trimStart s) s"
  unfolding trimStart_def suffix_def
  by (metis takeWhile_dropWhile_id)









section \<open>The shape of some matches\<close>















section \<open>The last line of the formatter's output\<close>









































text \<open>
  A blank line inside a block comment is a token with an empty text. Below depth 0 it is
  rendered as its indentation, which the trimming of the end, looking for empty lines,
  leaves in place.
\<close>

lemma format_blank_line_in_block_comment:
  "format (asc ''message A {'' @ NL # asc ''/*'' @ [NL, NL])
     = Inr (asc ''message A {'' @ NL # asc ''  /*'' @ NL # asc ''  '' @ NL # asc ''  '' @ [NL])"
  by code_simp

section \<open>The claims\<close>

text \<open>
  C1: for every input, the report of \<open>validate\<close> is built from the issues of the two passes
  (\<open>all_issues\<close>, in the order of emission): \<open>valid\<close> holds exactly when \<open>errors\<close> is empty;
  \<open>errors\<close>, \<open>warnings\<close> and \<open>info\<close> together hold every issue once (as multisets) and each
  holds issues of its own severity only; in each, an issue comes before another only if
  its line is smaller, or the lines are equal and its column is not greater; and among the
  issues of one line and column the order of emission is kept.
\<close>

theorem validate_report:
  "\<exists>is. all_issues content = Inr is \<and> validate content = Inr (report is)
     \<and> valid (report is) = (errors (report is) = [])
     \<and> mset (errors (report is)) + mset (warnings (report is)) + mset (info (report is)) = mset is
     \<and> list_all (\<lambda>i. severity i = Error) (errors (report is))
     \<and> list_all (\<lambda>i. severity i = Warning) (warnings (report is))
     \<and> list_all (\<lambda>i. severity i = Info) (info (report is))
     \<and> sorted_wrt (\<lambda>a b. line a < line b \<or> (line a = line b \<and> column a \<le> column b))
           (errors (report is))
     \<and> sorted_wrt (\<lambda>a b. line a < line b \<or> (line a = line b \<and> column a \<le> column b))
           (warnings (report is))
     \<and> sorted_wrt (\<lambda>a b. line a < line b \<or> (line a = line b \<and> column a \<le> column b))
           (info (report is))
     \<and> (\<forall>l c. filter (\<lambda>i. line i = l \<and> column i = c) (errors (report is))
             = filter (\<lambda>i. line i = l \<and> column i = c \<and> severity i = Error) is)
     \<and> (\<forall>l c. filter (\<lambda>i. line i = l \<and> column i = c) (warnings (report is))
             = filter (\<lambda>i. line i = l \<and> column i = c \<and> severity i = Warning) is)
     \<and> (\<forall>l c. filter (\<lambda>i. line i = l \<and> column i = c) (info (report is))
             = filter (\<lambda>i. line i = l \<and> column i = c \<and> severity i = Info) is)"
proof -
  obtain "is" where a: "all_issues content = Inr is"
    using all_issues_total by blast
  define ss where "ss = sort_key issue_key is"
  have r: "report is = \<lparr>valid = (filter (\<lambda>i. severity i = Error) ss = []),
      errors = filter (\<lambda>i. severity i = Error) ss,
      warnings = filter (\<lambda>i. severity i = Warning) ss,
      info = filter (\<lambda>i. severity i = Info) ss\<rparr>"
    by (simp add: report_def sort_issues_def ss_def Let_def)
  have "sorted (map issue_key ss)"
    by (simp add: ss_def)
  then have "sorted_wrt (\<lambda>a b. issue_key a \<le> issue_key b) ss"
    by (simp add: sorted_map)
  then have sorted_ss:
    "sorted_wrt (\<lambda>a b. line a < line b \<or> (line a = line b \<and> column a \<le> column b)) ss"
    by (rule sorted_wrt_mono_rel [rotated]) (auto simp: issue_key_def)
  have sorted_sub:
    "sorted_wrt (\<lambda>a b. line a < line b \<or> (line a = line b \<and> column a \<le> column b)) (filter P ss)"
    for P
    using sorted_ss by (rule sorted_wrt_filter)
  have part: "mset (filter (\<lambda>i. severity i = Error) xs) + mset (filter (\<lambda>i. severity i = Warning) xs)
      + mset (filter (\<lambda>i. severity i = Info) xs) = mset xs" for xs :: "Issue list"
  proof (induction xs)
    case Nil
    show ?case by simp
  next
    case (Cons x xs)
    then show ?case by (cases "severity x") simp_all
  qed
  have stable: "filter (\<lambda>i. line i = l \<and> column i = c) (filter P ss)
      = filter (\<lambda>i. line i = l \<and> column i = c \<and> P i) is" for l c P
  proof -
    have k: "(line i = l \<and> column i = c) = (issue_key i = (l, c))" for i
      by (simp add: issue_key_def)
    have "filter (\<lambda>i. line i = l \<and> column i = c) (filter P ss)
        = filter P (filter (\<lambda>i. issue_key i = (l, c)) ss)"
      unfolding k by (simp add: conj_commute)
    also have "filter (\<lambda>i. issue_key i = (l, c)) ss = filter (\<lambda>i. issue_key i = (l, c)) is"
      unfolding ss_def by (rule sort_key_stable)
    also have "filter P (filter (\<lambda>i. issue_key i = (l, c)) is)
        = filter (\<lambda>i. line i = l \<and> column i = c \<and> P i) is"
      by (auto simp: issue_key_def intro: filter_cong)
    finally show ?thesis .
  qed
  have e: "errors (report is) = filter (\<lambda>i. severity i = Error) ss"
    and w: "warnings (report is) = filter (\<lambda>i. severity i = Warning) ss"
    and n: "info (report is) = filter (\<lambda>i. severity i = Info) ss"
    and v: "valid (report is) = (filter (\<lambda>i. severity i = Error) ss = [])"
    by (simp_all add: r)
  have "mset ss = mset is"
    by (simp add: ss_def)
  with part [of ss] have c2: "mset (errors (report is)) + mset (warnings (report is))
      + mset (info (report is)) = mset is"
    by (simp only: e w n)
  have c1: "valid (report is) = (errors (report is) = [])"
    by (simp only: e v)
  have c3: "list_all (\<lambda>i. severity i = Error) (errors (report is))"
    and c4: "list_all (\<lambda>i. severity i = Warning) (warnings (report is))"
    and c5: "list_all (\<lambda>i. severity i = Info) (info (report is))"
    by (simp_all add: e w n list_all_iff)
  have c6: "sorted_wrt (\<lambda>a b. line a < line b \<or> (line a = line b \<and> column a \<le> column b))
      (errors (report is))"
    and c7: "sorted_wrt (\<lambda>a b. line a < line b \<or> (line a = line b \<and> column a \<le> column b))
      (warnings (report is))"
    and c8: "sorted_wrt (\<lambda>a b. line a < line b \<or> (line a = line b \<and> column a \<le> column b))
      (info (report is))"
    unfolding e w n by (rule sorted_sub)+
  have c9: "\<forall>l c. filter (\<lambda>i. line i = l \<and> column i = c) (errors (report is))
             = filter (\<lambda>i. line i = l \<and> column i = c \<and> severity i = Error) is"
    and c10: "\<forall>l c. filter (\<lambda>i. line i = l \<and> column i = c) (warnings (report is))
             = filter (\<lambda>i. line i = l \<and> column i = c \<and> severity i = Warning) is"
    and c11: "\<forall>l c. filter (\<lambda>i. line i = l \<and> column i = c) (info (report is))
             = filter (\<lambda>i. line i = l \<and> column i = c \<and> severity i = Info) is"
    unfolding e w n using stable by blast+
  have c0: "validate content = Inr (report is)"
    by (simp add: validate_def a)
  show ?thesis
    by (intro exI [of _ "is"] conjI) (fact a c0 c1 c2 c3 c4 c5 c6 c7 c8 c9 c10 c11)+
qed

text \<open>
  C2: the input \<^verbatim>\<open>"message A {\n  string name = 1 ; // the id ;\n}\n"\<close>. The field branch
  removes the white space before a semicolon with a pattern that has no \<open>g\<close> flag, so
  only the first occurrence on the line is rewritten: the first call repairs the
  semicolon of the field and leaves the one in the comment, and a second call, whose
  first occurrence is now the one in the comment, rewrites that. The output of the first
  call is not a fixed point of \<open>format\<close>.
\<close>

theorem format_not_idempotent:
  "format (asc ''message A {'' @ NL # asc ''  string name = 1 ; // the id ;'' @ NL # asc ''}''
           @ [NL])
     = Inr (asc ''message A {'' @ NL # asc ''  string name = 1; // the id ;'' @ NL # asc ''}''
            @ [NL])
   \<and> format (asc ''message A {'' @ NL # asc ''  string name = 1; // the id ;'' @ NL # asc ''}''
             @ [NL])
     = Inr (asc ''message A {'' @ NL # asc ''  string name = 1; // the id;'' @ NL # asc ''}''
            @ [NL])
   \<and> asc ''message A {'' @ NL # asc ''  string name = 1; // the id ;'' @ NL # asc ''}'' @ [NL]
     \<noteq> asc ''message A {'' @ NL # asc ''  string name = 1; // the id;'' @ NL # asc ''}'' @ [NL]"
  by code_simp

text \<open>
  C3: for every input string, \<open>validate\<close> and \<open>format\<close> return a value. Every function of
  the model is total (each loop has its termination proof), and none of the places where
  the source could throw (a read past the end of an array, a method call on a capture group
  that is \<^verbatim>\<open>undefined\<close>, \<^verbatim>\<open>repeat\<close> with a negative count) is reached.
\<close>

theorem validate_format_return:
  "(\<exists>r. validate content = Inr r) \<and> (\<exists>out. format content = Inr out)"
  using validate_total format_total by blast




text \<open>
  C5: the input \<^verbatim>\<open>"message Foo\n{\n}\n"\<close> has balanced braces. The brace of line 2 pushes
  the message expected since line 1 and then, in the loop over the opening braces of the
  line, an anonymous block as well; the brace of line 3 pops one of the two. One context
  is still open after the last line and one unclosed issue is reported, for line 1.
\<close>

theorem validateSyntax_brace_on_next_line:
  "syntax_loop (split_nl (asc ''message Foo'' @ NL # asc ''{'' @ NL # asc ''}'' @ [NL])) 1
       syntax_init
     = Inr \<lparr>s_issues = [],
            braceStack = [\<lparr>c_type = asc ''message'', c_name = asc ''Foo'', c_line = 1\<rparr>],
            expectingBody = False, expectingType = asc ''message'',
            expectingName = asc ''Foo'', expectingLine = 1\<rparr>
   \<and> validateSyntax (split_nl (asc ''message Foo'' @ NL # asc ''{'' @ NL # asc ''}'' @ [NL]))
     = Inr [issue 1 1 (asc ''syntax-error'')
              (asc ''Unclosed message '' @ dq @ asc ''Foo'' @ dq @ asc '' '' @ dash
               @ asc '' missing closing brace '' @ dq @ asc ''}'' @ dq @ asc ''.'') Error]"
  by code_simp

text \<open>
  C6: the scenario \<^verbatim>\<open>"message  Foo{\nstring name=1;\n}"\<close>. The code returns
  \<^verbatim>\<open>"message Foo{\n  string name = 1;\n}\n"\<close>: the pattern \<^verbatim>\<open>\s+\{$\<close> that puts one space
  before the brace needs white space to be there, so \<^verbatim>\<open>Foo{\<close> stays as it is. The
  \<^verbatim>\<open>"message Foo {\n  string name = 1;\n}\n"\<close> of the claim is not what the code returns.
\<close>

theorem format_scenario_no_space_before_brace:
  "format (asc ''message  Foo{'' @ NL # asc ''string name=1;'' @ NL # asc ''}'')
     = Inr (asc ''message Foo{'' @ NL # asc ''  string name = 1;'' @ NL # asc ''}'' @ [NL])
   \<and> format (asc ''message  Foo{'' @ NL # asc ''string name=1;'' @ NL # asc ''}'')
     \<noteq> Inr (asc ''message Foo {'' @ NL # asc ''  string name = 1;'' @ NL # asc ''}'' @ [NL])"
  by code_simp

text \<open>
  C7: the scenario \<^verbatim>\<open>"message Foo string name = 1; }"\<close>. The line opens a message without
  a brace, so the scanner expects a body; the missing brace is reported only when a later
  line of code is scanned, and here there is none. The issues of line 1 with the rule
  \<open>syntax-error\<close> are the unexpected closing brace and the content after the semicolon;
  none reports a missing opening brace.
\<close>

theorem validate_scenario_no_missing_brace_issue:
  "validate (asc ''message Foo string name = 1; }'')
     = Inr \<lparr>valid = False,
            errors =
              [issue 1 1 (asc ''syntax-declaration'')
                 (asc ''File should start with a syntax declaration (e.g., syntax = '' @ dq
                  @ asc ''proto3'' @ dq @ asc '';).'') Error,
               issue 1 1 (asc ''syntax-error'')
                 (asc ''Unexpected closing brace '' @ dq @ asc ''}'' @ dq @ asc ''.'') Error,
               issue 1 29 (asc ''syntax-error'')
                 (asc ''Unexpected content '' @ dq @ asc ''}'' @ dq @ asc '' after semicolon.'')
                 Error],
            warnings =
              [issue 1 1 (asc ''trailing-newline'')
                 (asc ''File should end with a trailing newline.'') Warning,
               issue 1 1 (asc ''package-declaration'') (asc ''File should declare a package.'')
                 Warning],
            info = []\<rparr>"
  by code_simp







text \<open>
  C9 (as stated, refuted): the empty input does not end with a newline character, and
  \<open>validate\<close> reports no trailing-newline warning for it.
\<close>

theorem validate_empty_input:
  "validate []
     = Inr \<lparr>valid = False,
            errors =
              [issue 1 1 (asc ''syntax-declaration'')
                 (asc ''File should start with a syntax declaration (e.g., syntax = '' @ dq
                  @ asc ''proto3'' @ dq @ asc '';).'') Error],
            warnings =
              [issue 1 1 (asc ''package-declaration'') (asc ''File should declare a package.'')
                 Warning],
            info = []\<rparr>
   \<and> \<not> endsWith [] [NL]"
  by code_simp

text \<open>
  C9 (amended): for every input, the report has a trailing-newline warning exactly when
  the input is not empty and does not end with a newline character, and then exactly one,
  at the last line; it has one max-line-length warning for each line longer than 80, each
  at column 81; and no error or info issue has either rule. So an input without a
  trailing newline that has one line of 92 characters (and no other line longer than 80)
  yields exactly one warning of each rule.
\<close>

theorem trailing_newline_and_line_length:
  "\<exists>r. validate content = Inr r
     \<and> filter (\<lambda>i. rule i = asc ''trailing-newline'') (warnings r)
         = (if length content > 0 \<and> \<not> endsWith content [NL]
            then [issue (int (length (split_nl content))) 1 (asc ''trailing-newline'')
                    (asc ''File should end with a trailing newline.'') Warning]
            else [])
     \<and> filter (\<lambda>i. rule i = asc ''trailing-newline'') (errors r) = []
     \<and> filter (\<lambda>i. rule i = asc ''trailing-newline'') (info r) = []
     \<and> length (filter (\<lambda>i. rule i = asc ''max-line-length'') (warnings r))
         = length (filter (\<lambda>l. 80 < length l) (split_nl content))
     \<and> list_all (\<lambda>i. column i = 81) (filter (\<lambda>i. rule i = asc ''max-line-length'') (warnings r))
     \<and> filter (\<lambda>i. rule i = asc ''max-line-length'') (errors r) = []
     \<and> filter (\<lambda>i. rule i = asc ''max-line-length'') (info r) = []"
proof -
  obtain "is" where a: "all_issues content = Inr is"
    using all_issues_total by blast
  define tn where "tn = check_trailing_newline content (split_nl content)"
  define ml where "ml = line_length_issues 1 (split_nl content)"
  have v: "validate content = Inr (report is)"
    by (simp add: validate_def a)
  have e: "errors (report is) = filter (\<lambda>i. severity i = Error) (sort_issues is)"
    and w: "warnings (report is) = filter (\<lambda>i. severity i = Warning) (sort_issues is)"
    and n: "info (report is) = filter (\<lambda>i. severity i = Info) (sort_issues is)"
    by (simp_all add: report_def Let_def)
  have tn_sort: "sort_issues tn = tn"
    by (simp add: tn_def check_trailing_newline_def sort_issues_def)
  have tn_w: "filter (\<lambda>i. severity i = Warning) tn = tn"
    and tn_e: "filter (\<lambda>i. severity i = Error) tn = []"
    and tn_i: "filter (\<lambda>i. severity i = Info) tn = []"
    by (simp_all add: tn_def check_trailing_newline_def issue_def)
  have ml_all: "list_all (\<lambda>i. column i = 81 \<and> severity i = Warning) (sort_issues ml)"
    using line_length_issues_props [of 1 "split_nl content"]
    by (simp add: ml_def list_all_iff sort_issues_def)
  then have ml_w: "filter (\<lambda>i. severity i = Warning) (sort_issues ml) = sort_issues ml"
    and ml_e: "filter (\<lambda>i. severity i = Error) (sort_issues ml) = []"
    and ml_i: "filter (\<lambda>i. severity i = Info) (sort_issues ml) = []"
    by (auto simp: list_all_iff filter_empty_conv)
  have ml_len: "length (sort_issues ml) = length (filter (\<lambda>l. 80 < length l) (split_nl content))"
    using line_length_issues_props [of 1 "split_nl content"]
    by (simp add: ml_def sort_issues_def)
  have c1: "filter (\<lambda>i. rule i = asc ''trailing-newline'') (warnings (report is))
         = (if length content > 0 \<and> \<not> endsWith content [NL]
            then [issue (int (length (split_nl content))) 1 (asc ''trailing-newline'')
                    (asc ''File should end with a trailing newline.'') Warning]
            else [])"
    unfolding w filter_rule_report all_issues_by_rule(1) [OF a] tn_def [symmetric] tn_sort tn_w
    by (simp add: tn_def check_trailing_newline_def)
  have c2: "filter (\<lambda>i. rule i = asc ''trailing-newline'') (errors (report is)) = []"
    unfolding e filter_rule_report all_issues_by_rule(1) [OF a] tn_def [symmetric] tn_sort tn_e ..
  have c3: "filter (\<lambda>i. rule i = asc ''trailing-newline'') (info (report is)) = []"
    unfolding n filter_rule_report all_issues_by_rule(1) [OF a] tn_def [symmetric] tn_sort tn_i ..
  have mw: "filter (\<lambda>i. rule i = asc ''max-line-length'') (warnings (report is)) = sort_issues ml"
    unfolding w filter_rule_report all_issues_by_rule(2) [OF a] ml_def [symmetric] ml_w ..
  have c4: "length (filter (\<lambda>i. rule i = asc ''max-line-length'') (warnings (report is)))
         = length (filter (\<lambda>l. 80 < length l) (split_nl content))"
    unfolding mw by (rule ml_len)
  have c5: "list_all (\<lambda>i. column i = 81)
      (filter (\<lambda>i. rule i = asc ''max-line-length'') (warnings (report is)))"
    unfolding mw using ml_all by (simp add: list_all_iff)
  have c6: "filter (\<lambda>i. rule i = asc ''max-line-length'') (errors (report is)) = []"
    unfolding e filter_rule_report all_issues_by_rule(2) [OF a] ml_def [symmetric] ml_e ..
  have c7: "filter (\<lambda>i. rule i = asc ''max-line-length'') (info (report is)) = []"
    unfolding n filter_rule_report all_issues_by_rule(2) [OF a] ml_def [symmetric] ml_i ..
  show ?thesis
    by (intro exI [of _ "report is"] conjI) (fact v c1 c2 c3 c4 c5 c6 c7)+
qed

theorem trailing_newline_and_line_length_witness:
  "\<exists>r. validate (replicate 92 97) = Inr r
     \<and> filter (\<lambda>i. rule i = asc ''trailing-newline'') (warnings r)
         = [issue 1 1 (asc ''trailing-newline'')
              (asc ''File should end with a trailing newline.'') Warning]
     \<and> length (filter (\<lambda>i. rule i = asc ''max-line-length'') (warnings r)) = 1
     \<and> list_all (\<lambda>i. column i = 81) (filter (\<lambda>i. rule i = asc ''max-line-length'') (warnings r))"
proof -
  have s: "split_nl (replicate 92 97) = [replicate 92 97]"
    by code_simp
  have e: "\<not> endsWith (replicate 92 97) [NL]"
    by code_simp
  from trailing_newline_and_line_length [of "replicate 92 97"] show ?thesis
    unfolding s using e by auto
qed

end
